theory Spec2Isabelle
  imports Complex_Main
begin

unbundle bit_operations_syntax

text \<open>
  Orchestration core of the scraping agent: the proxy rotator, the credential rotator,
  the scheduler's retry path and the result cache, each embedded from its source file,
  followed by the properties proved of them. Operations that mutate an object take the
  object and return it updated; exceptions are values; the clock, the random source and
  the task handler are parameters.
\<close>

section \<open>Proxy rotator (src/lib/managers/proxyManager.js)\<close>

text \<open>
  The class \<^verbatim>\<open>ProxyManager\<close> keeps four JavaScript maps. The map \<^verbatim>\<open>proxies\<close> is read
  in insertion order by \<^verbatim>\<open>assignProxiesToProvider\<close>, so it is an association list; the
  other three are only looked up by key and are partial functions. A proxy endpoint is
  the string of its URI. \<^verbatim>\<open>Date.now()\<close> is a parameter \<open>now\<close> of every operation that
  reads the clock. Of the logger the model keeps the warnings of \<^verbatim>\<open>getProxy\<close>, one per
  pass that finds no healthy proxy, each by the consumer it names; event emission and
  the other log lines have no effect on the manager's state and are left out.
\<close>

record proxy_status =
  healthy :: bool
  lastCheck :: "int option"
  failCount :: nat
  responseTime :: int
  lastError :: "string option"

record proxy_config =
  pc_enabled :: bool
  pc_providers :: "(string \<times> string list) list"

record proxy_manager =
  pm_config :: proxy_config
  proxies :: "(string \<times> string list) list"
  healthStatus :: "string \<rightharpoonup> proxy_status"
  lastUsed :: "string \<rightharpoonup> int"
  providerAssignments :: "string \<rightharpoonup> string list"
  warnings :: "string list"

text \<open>The engine's error for a call stack that is used up.\<close>

datatype proxy_error = RangeError

text \<open>The status object written by \<^verbatim>\<open>initialize\<close> and used as default by \<^verbatim>\<open>updateProxyHealth\<close>.\<close>

definition fresh_status :: proxy_status where
  "fresh_status = \<lparr>healthy = True, lastCheck = None, failCount = 0, responseTime = 0, lastError = None\<rparr>"

text \<open>\<^verbatim>\<open>Map.prototype.set\<close> on an insertion-ordered map: an existing key keeps its place.\<close>

fun map_set :: "'k \<Rightarrow> 'v \<Rightarrow> ('k \<times> 'v) list \<Rightarrow> ('k \<times> 'v) list" where
  "map_set k v [] = [(k, v)]"
| "map_set k v (e # es) = (if fst e = k then (k, v) # es else e # map_set k v es)"

definition init_provider :: "proxy_manager \<Rightarrow> string \<times> string list \<Rightarrow> proxy_manager" where
  "init_provider pm provider =
     pm\<lparr>proxies := map_set (fst provider) (snd provider) (proxies pm),
        healthStatus := foldl (\<lambda>hs proxy. hs(proxy \<mapsto> fresh_status)) (healthStatus pm) (snd provider)\<rparr>"

definition pm_initialize :: "proxy_manager \<Rightarrow> proxy_manager" where
  "pm_initialize pm =
     (if \<not> pc_enabled (pm_config pm) then pm
      else foldl init_provider pm (pc_providers (pm_config pm)))"

definition new_ProxyManager :: "proxy_config \<Rightarrow> proxy_manager" where
  "new_ProxyManager cfg =
     pm_initialize \<lparr>pm_config = cfg, proxies = [], healthStatus = Map.empty,
                    lastUsed = Map.empty, providerAssignments = Map.empty, warnings = []\<rparr>"

definition allProxies :: "proxy_manager \<Rightarrow> string list" where
  "allProxies pm = concat (map snd (proxies pm))"

definition assignProxiesToProvider :: "proxy_manager \<Rightarrow> string \<Rightarrow> string list \<times> proxy_manager" where
  "assignProxiesToProvider pm scrapingProvider =
     (allProxies pm,
      pm\<lparr>providerAssignments := (providerAssignments pm)(scrapingProvider \<mapsto> allProxies pm)\<rparr>)"

text \<open>\<^verbatim>\<open>this.healthStatus.get(proxy)?.healthy\<close>: an endpoint without a status is not healthy.\<close>

definition isHealthy :: "proxy_manager \<Rightarrow> string \<Rightarrow> bool" where
  "isHealthy pm proxy = (case healthStatus pm proxy of None \<Rightarrow> False | Some status \<Rightarrow> healthy status)"

text \<open>\<^verbatim>\<open>this.lastUsed.get(a) || 0\<close>.\<close>

definition lastUsedOr0 :: "proxy_manager \<Rightarrow> string \<Rightarrow> int" where
  "lastUsedOr0 pm proxy = (case lastUsed pm proxy of None \<Rightarrow> 0 | Some t \<Rightarrow> t)"

text \<open>
  The expression bound to \<^verbatim>\<open>selectedProxy\<close>. \<^verbatim>\<open>previousProxy\<close> is \<open>None\<close> for \<^verbatim>\<open>null\<close>;
  JavaScript's \<^verbatim>\<open>&&\<close> and \<^verbatim>\<open>||\<close> treat the empty string as false, as \<^verbatim>\<open>null\<close> and
  \<^verbatim>\<open>undefined\<close>. The list is not empty where \<^verbatim>\<open>getProxy\<close> evaluates the expression.
\<close>

definition selectProxy :: "string option \<Rightarrow> string list \<Rightarrow> string" where
  "selectProxy previousProxy sortedProxies =
     (case previousProxy of
        None \<Rightarrow> hd sortedProxies
      | Some prev \<Rightarrow>
          (if prev \<noteq> [] \<and> length sortedProxies > 1
           then (case find (\<lambda>p. p \<noteq> prev) sortedProxies of
                   None \<Rightarrow> hd sortedProxies
                 | Some p \<Rightarrow> (if p \<noteq> [] then p else hd sortedProxies))
           else hd sortedProxies))"

text \<open>
  \<^verbatim>\<open>getProxy\<close> calls itself when no assigned endpoint is healthy. The function holds no
  \<^verbatim>\<open>await\<close>, so the inner call runs on the stack of the outer one, and nothing in the
  code bounds the nesting: the engine's call stack does. The parameter \<open>stack\<close> is the
  number of further nested calls of \<^verbatim>\<open>getProxy\<close> the stack admits; a call beyond it
  throws the RangeError, which the \<^verbatim>\<open>async\<close> function hands to its caller as a rejected
  promise (\<open>Inl\<close>). The model places the exhaustion at the recursive call. A result
  \<open>Inr r\<close> is the resolved value, \<open>None\<close> for \<^verbatim>\<open>null\<close>; the second component is the
  manager after the call. The comparator of \<^verbatim>\<open>sort\<close> orders by the last-used time, and
  \<^verbatim>\<open>Array.prototype.sort\<close> is stable, as \<open>sort_key\<close> is.
\<close>

fun getProxy ::
  "nat \<Rightarrow> proxy_manager \<Rightarrow> string \<Rightarrow> string option \<Rightarrow> int
     \<Rightarrow> (proxy_error + string option) \<times> proxy_manager" where
  "getProxy stack pm scrapingProvider previousProxy now =
     (if \<not> pc_enabled (pm_config pm) then (Inr None, pm)
      else
        let (assignedProxies, pm1) =
              (case providerAssignments pm scrapingProvider of
                 None \<Rightarrow> assignProxiesToProvider pm scrapingProvider
               | Some ps \<Rightarrow> (ps, pm));
            healthyProxies = filter (isHealthy pm1) assignedProxies
        in if length healthyProxies = 0
           then
             (let pm2 = pm1\<lparr>warnings := warnings pm1 @ [scrapingProvider],
                            providerAssignments := (providerAssignments pm1)(scrapingProvider := None)\<rparr>
              in case stack of
                   0 \<Rightarrow> (Inl RangeError, pm2)
                 | Suc deeper \<Rightarrow> getProxy deeper pm2 scrapingProvider None now)
           else
             let sortedProxies = sort_key (lastUsedOr0 pm1) healthyProxies;
                 selectedProxy = selectProxy previousProxy sortedProxies
             in (Inr (Some selectedProxy), pm1\<lparr>lastUsed := (lastUsed pm1)(selectedProxy \<mapsto> now)\<rparr>))"

declare getProxy.simps [simp del]

text \<open>
  \<^verbatim>\<open>updateProxyHealth(proxy, healthy, responseTime = null)\<close>; a response time of \<open>0\<close> is
  false in \<^verbatim>\<open>if (responseTime)\<close>.
\<close>

definition updateProxyHealth ::
  "proxy_manager \<Rightarrow> string \<Rightarrow> bool \<Rightarrow> int option \<Rightarrow> int \<Rightarrow> proxy_manager" where
  "updateProxyHealth pm proxy ok rt now =
     (let status = (case healthStatus pm proxy of None \<Rightarrow> fresh_status | Some st \<Rightarrow> st);
          status1 =
            (if ok
             then status\<lparr>healthy := True, failCount := 0,
                         responseTime := (case rt of None \<Rightarrow> responseTime status
                                          | Some t \<Rightarrow> if t \<noteq> 0 then t else responseTime status)\<rparr>
             else status\<lparr>failCount := failCount status + 1,
                         healthy := failCount status + 1 < 3\<rparr>)
      in pm\<lparr>healthStatus := (healthStatus pm)(proxy \<mapsto> status1\<lparr>lastCheck := Some now\<rparr>)\<rparr>)"

text \<open>
  \<^verbatim>\<open>checkProxyHealth\<close>: the outcome of the outbound request is the parameter \<open>probe\<close>
  (\<open>True\<close> for a response with status 200); \<open>start\<close> and \<open>now\<close> are the two clock reads.
\<close>

definition checkProxyHealth :: "proxy_manager \<Rightarrow> string \<Rightarrow> bool \<Rightarrow> int \<Rightarrow> int \<Rightarrow> bool \<times> proxy_manager" where
  "checkProxyHealth pm proxy probe start now =
     (if probe then (True, updateProxyHealth pm proxy True (Some (now - start)) now)
      else (False, updateProxyHealth pm proxy False None now))"

definition markProxyError :: "proxy_manager \<Rightarrow> string \<Rightarrow> string \<Rightarrow> proxy_manager" where
  "markProxyError pm proxy err =
     (case healthStatus pm proxy of
        None \<Rightarrow> pm
      | Some status \<Rightarrow>
          pm\<lparr>healthStatus := (healthStatus pm)(proxy \<mapsto>
                status\<lparr>failCount := failCount status + 1, lastError := Some err,
                       healthy := failCount status + 1 < 3\<rparr>)\<rparr>)"

text \<open>
  The states a proxy manager can be in: the one its constructor builds, and every state
  one of its operations leaves behind.
\<close>

inductive pm_reachable :: "proxy_manager \<Rightarrow> bool" where
  pm_init: "pm_reachable (new_ProxyManager cfg)"
| pm_update: "pm_reachable pm \<Longrightarrow> pm_reachable (updateProxyHealth pm proxy ok rt now)"
| pm_probe: "pm_reachable pm \<Longrightarrow> pm_reachable (snd (checkProxyHealth pm proxy probe start now))"
| pm_error: "pm_reachable pm \<Longrightarrow> pm_reachable (markProxyError pm proxy err)"
| pm_select: "pm_reachable pm \<Longrightarrow> getProxy stack pm consumer prev now = (r, pm') \<Longrightarrow> pm_reachable pm'"

text \<open>The healthy endpoints among those a consumer draws from.\<close>

definition healthyCandidates :: "proxy_manager \<Rightarrow> string \<Rightarrow> string list" where
  "healthyCandidates pm consumer =
     filter (isHealthy pm)
       (case providerAssignments pm consumer of None \<Rightarrow> allProxies pm | Some ps \<Rightarrow> ps)"


section \<open>Credential rotator (src/unnamed/part_000, class ApiKeyManager)\<close>

text \<open>
  The per-provider state object of \<^verbatim>\<open>keyStates\<close> is a record; its three maps are keyed by
  the credential string. The configuration object maps a provider to its keys and its
  \<^verbatim>\<open>retry_delay\<close>. One call reads the clock several times; the model gives the call one
  reading \<open>now\<close>. Exceptions are values of \<open>key_error\<close>.
\<close>

record rate_limit_info =
  limitedAt :: int
  resetTime :: int

record error_info =
  count :: nat
  ei_lastError :: string
  backoffUntil :: int

record key_state =
  currentKeyIndex :: nat
  keys :: "string list"
  rateLimits :: "string \<rightharpoonup> rate_limit_info"
  errors :: "string \<rightharpoonup> error_info"
  lastRotation :: "string \<rightharpoonup> int"

record provider_keys =
  primary :: "string option"
  fallback :: "string list option"
  retry_delay :: "int option"

record api_key_manager =
  akm_config :: "string \<rightharpoonup> provider_keys"
  keyStates :: "string \<rightharpoonup> key_state"

datatype key_error = NoApiKeysConfigured | UnknownProvider | AllKeysUnavailable | KeyTypeError

text \<open>
  \<^verbatim>\<open>[keys.primary, ...(keys.fallback || [])].filter(Boolean)\<close>: a missing primary and
  empty strings are dropped.
\<close>

definition initial_key_state :: "provider_keys \<Rightarrow> key_state" where
  "initial_key_state pk =
     \<lparr>currentKeyIndex = 0,
      keys = filter (\<lambda>k. k \<noteq> [])
               ((case primary pk of None \<Rightarrow> [] | Some k \<Rightarrow> [k])
                @ (case fallback pk of None \<Rightarrow> [] | Some ks \<Rightarrow> ks)),
      rateLimits = Map.empty, errors = Map.empty, lastRotation = Map.empty\<rparr>"

definition new_ApiKeyManager :: "(string \<rightharpoonup> provider_keys) \<Rightarrow> api_key_manager" where
  "new_ApiKeyManager cfg =
     \<lparr>akm_config = cfg, keyStates = (\<lambda>provider. map_option initial_key_state (cfg provider))\<rparr>"

text \<open>
  The body of \<^verbatim>\<open>isKeyLimited\<close> once the provider's state is found. Reading
  \<^verbatim>\<open>this.config[provider].retry_delay\<close> of a provider without configuration throws a
  TypeError; the two earlier checks return before that read. A last-rotation time of
  \<open>0\<close> is false in \<^verbatim>\<open>lastRotation && ...\<close>.
\<close>

definition keyLimitedIn :: "provider_keys option \<Rightarrow> key_state \<Rightarrow> string \<Rightarrow> int \<Rightarrow> key_error + bool" where
  "keyLimitedIn pk state key now =
     (if (case rateLimits state key of None \<Rightarrow> False | Some info \<Rightarrow> now < resetTime info)
      then Inr True
      else if (case errors state key of None \<Rightarrow> False | Some info \<Rightarrow> now < backoffUntil info)
      then Inr True
      else (case pk of
              None \<Rightarrow> Inl KeyTypeError
            | Some c \<Rightarrow>
                (let minRotationInterval =
                       (case retry_delay c of None \<Rightarrow> 1000 | Some d \<Rightarrow> if d = 0 then 1000 else d)
                 in Inr (case lastRotation state key of
                           None \<Rightarrow> False
                         | Some t \<Rightarrow> t \<noteq> 0 \<and> now - t < minRotationInterval))))"

definition isKeyLimited :: "api_key_manager \<Rightarrow> string \<Rightarrow> string \<Rightarrow> int \<Rightarrow> key_error + bool" where
  "isKeyLimited akm provider key now =
     (case keyStates akm provider of
        None \<Rightarrow> Inr True
      | Some state \<Rightarrow> keyLimitedIn (akm_config akm provider) state key now)"

text \<open>
  The \<^verbatim>\<open>while\<close> loop of \<^verbatim>\<open>rotateKey\<close>, on the provider's state object; \<open>attempts\<close> is the
  loop counter. The loop writes the cursor before it examines the key.
\<close>

function rotateLoop ::
  "provider_keys option \<Rightarrow> key_state \<Rightarrow> int \<Rightarrow> nat \<Rightarrow> (key_error + string) \<times> key_state" where
  "rotateLoop pk state now attempts =
     (if attempts < length (keys state)
      then
        (let state1 = state\<lparr>currentKeyIndex := (currentKeyIndex state + 1) mod length (keys state)\<rparr>;
             nextKey = keys state1 ! currentKeyIndex state1
         in case keyLimitedIn pk state1 nextKey now of
              Inl e \<Rightarrow> (Inl e, state1)
            | Inr False \<Rightarrow>
                (Inr nextKey, state1\<lparr>lastRotation := (lastRotation state1)(nextKey \<mapsto> now)\<rparr>)
            | Inr True \<Rightarrow> rotateLoop pk state1 now (attempts + 1))
      else (Inl AllKeysUnavailable, state))"
  by pat_completeness auto
termination
  by (relation "measure (\<lambda>(pk, state, now, attempts). length (keys state) - attempts)") auto

definition rotateKey :: "api_key_manager \<Rightarrow> string \<Rightarrow> int \<Rightarrow> (key_error + string) \<times> api_key_manager" where
  "rotateKey akm provider now =
     (case keyStates akm provider of
        None \<Rightarrow> (Inl UnknownProvider, akm)
      | Some state \<Rightarrow>
          (let (r, state') = rotateLoop (akm_config akm provider) state now 0
           in (r, akm\<lparr>keyStates := (keyStates akm)(provider \<mapsto> state')\<rparr>)))"

text \<open>
  \<^verbatim>\<open>getKey\<close>. The cursor is \<open>0\<close> at construction and \<^verbatim>\<open>rotateKey\<close> reduces it modulo the
  number of keys, so it indexes the non-empty list.
\<close>

definition getKey :: "api_key_manager \<Rightarrow> string \<Rightarrow> int \<Rightarrow> (key_error + string) \<times> api_key_manager" where
  "getKey akm provider now =
     (case keyStates akm provider of
        None \<Rightarrow> (Inl NoApiKeysConfigured, akm)
      | Some state \<Rightarrow>
          (if length (keys state) = 0 then (Inl NoApiKeysConfigured, akm)
           else
             (let currentKey = keys state ! currentKeyIndex state
              in case isKeyLimited akm provider currentKey now of
                   Inl e \<Rightarrow> (Inl e, akm)
                 | Inr True \<Rightarrow> rotateKey akm provider now
                 | Inr False \<Rightarrow> (Inr currentKey, akm))))"

text \<open>\<^verbatim>\<open>markKeyLimited\<close>; a reset time that is missing or \<open>0\<close> takes the default.\<close>

definition markKeyLimited :: "api_key_manager \<Rightarrow> string \<Rightarrow> string \<Rightarrow> int option \<Rightarrow> int \<Rightarrow> api_key_manager" where
  "markKeyLimited akm provider key reset now =
     (case keyStates akm provider of
        None \<Rightarrow> akm
      | Some state \<Rightarrow>
          akm\<lparr>keyStates := (keyStates akm)(provider \<mapsto>
                 state\<lparr>rateLimits := (rateLimits state)(key \<mapsto>
                    \<lparr>limitedAt = now,
                     resetTime = (case reset of None \<Rightarrow> now + 60000
                                  | Some t \<Rightarrow> if t \<noteq> 0 then t else now + 60000)\<rparr>)\<rparr>)\<rparr>)"

definition markKeyError :: "api_key_manager \<Rightarrow> string \<Rightarrow> string \<Rightarrow> string \<Rightarrow> int \<Rightarrow> api_key_manager" where
  "markKeyError akm provider key err now =
     (case keyStates akm provider of
        None \<Rightarrow> akm
      | Some state \<Rightarrow>
          (let count0 = (case errors state key of None \<Rightarrow> 0 | Some e \<Rightarrow> count e);
               count1 = count0 + 1;
               currentErrors = \<lparr>count = count1, ei_lastError = err,
                                backoffUntil = now + min (int count1 * 5000) 300000\<rparr>
           in akm\<lparr>keyStates := (keyStates akm)(provider \<mapsto>
                    state\<lparr>errors := (errors state)(key \<mapsto> currentErrors)\<rparr>)\<rparr>))"

definition resetKeyState :: "api_key_manager \<Rightarrow> string \<Rightarrow> string \<Rightarrow> api_key_manager" where
  "resetKeyState akm provider key =
     (case keyStates akm provider of
        None \<Rightarrow> akm
      | Some state \<Rightarrow>
          akm\<lparr>keyStates := (keyStates akm)(provider \<mapsto>
                 state\<lparr>rateLimits := (rateLimits state)(key := None),
                       errors := (errors state)(key := None)\<rparr>)\<rparr>)"

text \<open>
  The order in which one rotation examines the keys: the positions after the cursor,
  wrapping around, the cursor's own position last.
\<close>

definition rotationOrder :: "key_state \<Rightarrow> nat list" where
  "rotationOrder state =
     map (\<lambda>j. (currentKeyIndex state + 1 + j) mod length (keys state)) [0..<length (keys state)]"


section \<open>Scheduler (src/lib/scheduler.js, class TaskScheduler)\<close>

text \<open>
  Numbers of JavaScript are IEEE doubles; the delay computation is modelled on the
  reals, exactly, and \<^verbatim>\<open>Math.random()\<close> is a parameter \<open>random\<close> with \<open>0 \<le> random < 1\<close>.
  A missing \<^verbatim>\<open>retry.delay\<close> or \<^verbatim>\<open>retry.max_attempts\<close> is \<open>None\<close>.
\<close>

record retry_config =
  max_attempts :: "nat option"
  delay :: "real option"

record scheduler_config =
  priorities :: "(string \<times> nat) list"
  retry :: retry_config

definition calculateRetryDelay :: "retry_config \<Rightarrow> nat \<Rightarrow> real \<Rightarrow> int" where
  "calculateRetryDelay rc attempts random =
     (let baseDelay = (case delay rc of None \<Rightarrow> 5000 | Some d \<Rightarrow> if d = 0 then 5000 else d);
          maxDelay = 300000;
          exponentialDelay = min (baseDelay * 2 ^ attempts) maxDelay;
          jitter = exponentialDelay * 0.2 * (random - 0.5)
      in \<lfloor>exponentialDelay + jitter\<rfloor>)"

text \<open>
  A task carries its category, its priority (\<open>None\<close> when absent) and its attempt
  count; the identifier is given at queueing. The handler, the random source and the
  identifier source are outside the scheduler: \<open>handler env n\<close> is the outcome of the
  \<open>n\<close>-th call of \<^verbatim>\<open>handler.execute\<close> (\<open>Inl\<close> an error, \<open>Inr\<close> a result), \<open>rand env n\<close>
  the \<open>n\<close>-th value of \<^verbatim>\<open>Math.random()\<close> drawn for a retry delay. The identifier
  \<^verbatim>\<open>category-time-random\<close> is abstracted to the number of identifiers given so far.
  The field \<^verbatim>\<open>startTime\<close> is never read and is left out.
\<close>

record task =
  category :: string
  priority :: "string option"
  attempts :: nat
  task_id :: nat

record environment =
  handler :: "nat \<Rightarrow> string + string"
  rand :: "nat \<Rightarrow> real"

datatype event =
    TaskStart nat string nat
  | TaskComplete nat string string
  | TaskFailed nat string string nat

datatype log_entry = LogRetry nat int | LogExecutionFailed nat

datatype task_error = HandlerError string | QueueTypeError

text \<open>
  The promise of \<^verbatim>\<open>executeTask\<close> is resolved, rejected, or still pending when the
  scheduler has nothing left to run.
\<close>

datatype outcome = Resolved string | Rejected task_error | Pending

text \<open>
  A queue of the package \<^verbatim>\<open>p-queue\<close>, made with the options \<^verbatim>\<open>concurrency\<close> and
  \<^verbatim>\<open>autoStart: true\<close>. A job given to \<^verbatim>\<open>add\<close> starts at once when fewer than
  \<^verbatim>\<open>concurrency\<close> jobs are running, and waits otherwise; a running job holds its slot
  until the promise of its function settles, and the promise that \<^verbatim>\<open>add\<close> returned
  settles with it. Of a queue the model keeps the counts that \<^verbatim>\<open>p-queue\<close> calls
  \<^verbatim>\<open>pending\<close>, the jobs running, and \<^verbatim>\<open>size\<close>, the jobs waiting.
\<close>

record pqueue =
  concurrency :: nat
  q_pending :: nat
  q_size :: nat

record scheduler_state =
  emitted :: "event list"
  logged :: "log_entry list"
  invocations :: nat
  draws :: nat
  ids :: nat
  slept :: "int list"
  queues :: "string \<rightharpoonup> pqueue"

text \<open>
  \<^verbatim>\<open>initialize\<close> makes one queue for each configured tier, later entries of the same
  name replacing earlier ones. The constructor of \<^verbatim>\<open>p-queue\<close> throws a TypeError for a
  concurrency below 1, and so does the constructor of the scheduler (\<open>None\<close>).
\<close>

fun initialize ::
  "(string \<times> nat) list \<Rightarrow> (string \<rightharpoonup> pqueue) \<Rightarrow> (string \<rightharpoonup> pqueue) option" where
  "initialize [] qs = Some qs"
| "initialize ((name, max_concurrent) # ps) qs =
     (if max_concurrent < 1 then None
      else initialize ps (qs(name \<mapsto> \<lparr>concurrency = max_concurrent, q_pending = 0, q_size = 0\<rparr>)))"

definition new_TaskScheduler :: "scheduler_config \<Rightarrow> scheduler_state option" where
  "new_TaskScheduler cfg =
     (case initialize (priorities cfg) Map.empty of
        None \<Rightarrow> None
      | Some qs \<Rightarrow> Some \<lparr>emitted = [], logged = [], invocations = 0, draws = 0, ids = 0,
                          slept = [], queues = qs\<rparr>)"

definition emit :: "event \<Rightarrow> scheduler_state \<Rightarrow> scheduler_state" where
  "emit e s = s\<lparr>emitted := emitted s @ [e]\<rparr>"

text \<open>The key of \<^verbatim>\<open>this.queues.get(task.priority || 'medium')\<close>.\<close>

definition queueName :: "task \<Rightarrow> string" where
  "queueName t = (case priority t of None \<Rightarrow> ''medium'' | Some p \<Rightarrow> if p = [] then ''medium'' else p)"

text \<open>\<^verbatim>\<open>attempts < this.config.retry.max_attempts\<close>; the comparison with \<^verbatim>\<open>undefined\<close> is false.\<close>

definition mayRetry :: "scheduler_config \<Rightarrow> task \<Rightarrow> bool" where
  "mayRetry cfg t = (case max_attempts (retry cfg) of None \<Rightarrow> False | Some m \<Rightarrow> attempts t < m)"

text \<open>The slots of a tier's queue that no running job holds.\<close>

definition freeSlots :: "scheduler_state \<Rightarrow> string \<Rightarrow> nat" where
  "freeSlots s name = (case queues s name of None \<Rightarrow> 0 | Some q \<Rightarrow> concurrency q - q_pending q)"

text \<open>
  A job that settles gives its slot back; when a job is waiting, the queue starts it in
  that slot. What a waiting job of another submission then does is not followed.
\<close>

definition queue_next :: "string \<Rightarrow> scheduler_state \<Rightarrow> scheduler_state" where
  "queue_next name s =
     (case queues s name of
        None \<Rightarrow> s
      | Some q \<Rightarrow>
          s\<lparr>queues := (queues s)(name \<mapsto>
               (if 0 < q_size q then q\<lparr>q_size := q_size q - 1\<rparr>
                else q\<lparr>q_pending := q_pending q - 1\<rparr>))\<rparr>)"

text \<open>
  \<^verbatim>\<open>executeTask\<close>, \<^verbatim>\<open>runTask\<close> and \<^verbatim>\<open>retryTask\<close> call each other: \<^verbatim>\<open>retryTask\<close> hands the
  task back to \<^verbatim>\<open>executeTask\<close>, from inside the job that \<^verbatim>\<open>executeTask\<close> gave to the
  queue. The job of the outer call awaits the promise of the inner call, so it holds its
  slot while the inner job is queued and run. The functions follow one call of
  \<^verbatim>\<open>executeTask\<close> and the calls it makes in turn until the scheduler has nothing left to
  run; the jobs of other submissions are the counts found in the queue, and they do not
  settle meanwhile. \<^verbatim>\<open>executeTask\<close> builds the queued task with \<^verbatim>\<open>attempts: 0\<close> after
  spreading the task it was given. When the tier has no queue, \<^verbatim>\<open>queue.add\<close> throws a
  TypeError inside the \<^verbatim>\<open>try\<close>. The \<^verbatim>\<open>catch\<close> logs the error and throws it again. Each
  nested call takes one more slot, which bounds the nesting.
\<close>

function executeTask ::
    "scheduler_config \<Rightarrow> environment \<Rightarrow> task \<Rightarrow> scheduler_state \<Rightarrow> outcome \<times> scheduler_state"
  and runTask ::
    "scheduler_config \<Rightarrow> environment \<Rightarrow> task \<Rightarrow> scheduler_state \<Rightarrow> outcome \<times> scheduler_state"
  and retryTask ::
    "scheduler_config \<Rightarrow> environment \<Rightarrow> task \<Rightarrow> string \<Rightarrow> scheduler_state \<Rightarrow> outcome \<times> scheduler_state"
where
  "executeTask cfg env t s =
     (let taskId = ids s;
          s1 = s\<lparr>ids := ids s + 1\<rparr>;
          queuedTask = t\<lparr>task_id := taskId, attempts := 0\<rparr>;
          name = queueName t
      in case queues s1 name of
           None \<Rightarrow> (Rejected QueueTypeError, s1\<lparr>logged := logged s1 @ [LogExecutionFailed taskId]\<rparr>)
         | Some queue \<Rightarrow>
             if q_pending queue < concurrency queue
             then
               (case runTask cfg env queuedTask
                       (s1\<lparr>queues := (queues s1)(name \<mapsto> queue\<lparr>q_pending := q_pending queue + 1\<rparr>)\<rparr>) of
                  (Resolved result, s2) \<Rightarrow> (Resolved result, queue_next name s2)
                | (Rejected error, s2) \<Rightarrow>
                    (let s3 = queue_next name s2
                     in (Rejected error, s3\<lparr>logged := logged s3 @ [LogExecutionFailed taskId]\<rparr>))
                | (Pending, s2) \<Rightarrow> (Pending, s2))
             else (Pending, s1\<lparr>queues := (queues s1)(name \<mapsto> queue\<lparr>q_size := q_size queue + 1\<rparr>)\<rparr>))"
| "runTask cfg env t s =
     (let s1 = emit (TaskStart (task_id t) (category t) (attempts t)) s;
          s2 = s1\<lparr>invocations := invocations s1 + 1\<rparr>
      in case handler env (invocations s1) of
           Inr result \<Rightarrow> (Resolved result, emit (TaskComplete (task_id t) (category t) result) s2)
         | Inl error \<Rightarrow>
             (if mayRetry cfg t then retryTask cfg env t error s2
              else (Rejected (HandlerError error),
                    emit (TaskFailed (task_id t) (category t) error (attempts t)) s2)))"
| "retryTask cfg env t error s =
     (let retryDelay = calculateRetryDelay (retry cfg) (attempts t) (rand env (draws s));
          s1 = s\<lparr>draws := draws s + 1,
                 logged := logged s @ [LogRetry (task_id t) retryDelay],
                 slept := slept s @ [retryDelay]\<rparr>
      in executeTask cfg env (t\<lparr>attempts := attempts t + 1\<rparr>) s1)"
  by pat_completeness auto
termination
  by (relation "measure (\<lambda>x. case x of
        Inl (cfg, env, t, s) \<Rightarrow> 3 * freeSlots s (queueName t) + 1
      | Inr (Inl (cfg, env, t, s)) \<Rightarrow> 3 * freeSlots s (queueName t) + 3
      | Inr (Inr (cfg, env, t, error, s)) \<Rightarrow> 3 * freeSlots s (queueName t) + 2)")
     (auto simp: freeSlots_def queueName_def emit_def)
section \<open>Result cache (src/lib/managers/cacheManager.js, class CacheManager)\<close>

subsection \<open>Values and their serialization\<close>

text \<open>
  The key material and the cached values are JavaScript values. The model has the
  values that \<^verbatim>\<open>JSON.stringify\<close> distinguishes: \<^verbatim>\<open>undefined\<close>, \<^verbatim>\<open>null\<close>, booleans, integral
  numbers, BigInts, strings, arrays, and objects as the list of their own properties in
  property order. A string is the list of the bytes of its UTF-8 encoding, which is what
  \<^verbatim>\<open>hash.update\<close> feeds to the hash function.
\<close>

datatype jsval =
    JUndefined
  | JNull
  | JBool bool
  | JNum int
  | JBigInt int
  | JStr string
  | JArr "jsval list"
  | JObj "(string \<times> jsval) list"

datatype js_error = TypeError | SyntaxError | BackendError

function decimal :: "nat \<Rightarrow> string" where
  "decimal n = (if n < 10 then [char_of (48 + n)] else decimal (n div 10) @ [char_of (48 + n mod 10)])"
  by pat_completeness auto
termination
  by (relation "measure id") auto

declare decimal.simps [simp del]

definition show_int :: "int \<Rightarrow> string" where
  "show_int i = (if i < 0 then CHR ''-'' # decimal (nat (- i)) else decimal (nat i))"

definition hexdigit :: "int \<Rightarrow> char" where
  "hexdigit n = (if n < 10 then char_of (48 + n) else char_of (87 + n))"

text \<open>
  \<^verbatim>\<open>QuoteJSONString\<close> of the language standard, on bytes: the double quote (0x22) and
  the backslash (0x5C) are escaped with a backslash, the control characters by their
  short escapes or as \<^verbatim>\<open>\u00XX\<close>, every other byte stands for itself.
\<close>

definition escape_char :: "char \<Rightarrow> string" where
  "escape_char c =
     (if c = CHR 0x22 then [CHR 0x5C, CHR 0x22]
      else if c = CHR 0x5C then [CHR 0x5C, CHR 0x5C]
      else if c = CHR 0x08 then [CHR 0x5C, CHR ''b'']
      else if c = CHR 0x0C then [CHR 0x5C, CHR ''f'']
      else if c = CHR 0x0A then [CHR 0x5C, CHR ''n'']
      else if c = CHR 0x0D then [CHR 0x5C, CHR ''r'']
      else if c = CHR 0x09 then [CHR 0x5C, CHR ''t'']
      else if (of_char c :: int) < 32
      then [CHR 0x5C, CHR ''u'', CHR ''0'', CHR ''0'',
            hexdigit (of_char c div 16), hexdigit (of_char c mod 16)]
      else [c])"

definition quote :: "string \<Rightarrow> string" where
  "quote s = CHR 0x22 # concat (map escape_char s) @ [CHR 0x22]"

fun join :: "string list \<Rightarrow> string" where
  "join [] = []"
| "join [s] = s"
| "join (s # t # ss) = s @ CHR '','' # join (t # ss)"

text \<open>
  \<^verbatim>\<open>JSON.stringify\<close> of a value without BigInt: \<open>None\<close> is \<^verbatim>\<open>undefined\<close>. An undefined
  array element is written \<^verbatim>\<open>null\<close>, an undefined property is left out, and the
  properties are written in the object's property order.
\<close>

fun serialize :: "jsval \<Rightarrow> string option"
  and serialize_elements :: "jsval list \<Rightarrow> string list"
  and serialize_properties :: "(string \<times> jsval) list \<Rightarrow> string list"
where
  "serialize JUndefined = None"
| "serialize JNull = Some ''null''"
| "serialize (JBool b) = Some (if b then ''true'' else ''false'')"
| "serialize (JNum i) = Some (show_int i)"
| "serialize (JBigInt i) = None"
| "serialize (JStr s) = Some (quote s)"
| "serialize (JArr xs) = Some (CHR ''['' # join (serialize_elements xs) @ '']'')"
| "serialize (JObj ps) = Some (CHR ''{'' # join (serialize_properties ps) @ ''}'')"
| "serialize_elements [] = []"
| "serialize_elements (x # xs) =
     (case serialize x of None \<Rightarrow> ''null'' | Some s \<Rightarrow> s) # serialize_elements xs"
| "serialize_properties [] = []"
| "serialize_properties (p # ps) =
     (case serialize (snd p) of
        None \<Rightarrow> serialize_properties ps
      | Some s \<Rightarrow> (quote (fst p) @ CHR '':'' # s) # serialize_properties ps)"

fun hasBigInt :: "jsval \<Rightarrow> bool"
  and anyBigInt :: "jsval list \<Rightarrow> bool"
  and anyBigIntProperty :: "(string \<times> jsval) list \<Rightarrow> bool"
where
  "hasBigInt (JBigInt i) = True"
| "hasBigInt (JArr xs) = anyBigInt xs"
| "hasBigInt (JObj ps) = anyBigIntProperty ps"
| "hasBigInt JUndefined = False"
| "hasBigInt JNull = False"
| "hasBigInt (JBool b) = False"
| "hasBigInt (JNum i) = False"
| "hasBigInt (JStr s) = False"
| "anyBigInt [] = False"
| "anyBigInt (x # xs) = (hasBigInt x \<or> anyBigInt xs)"
| "anyBigIntProperty [] = False"
| "anyBigIntProperty (p # ps) = (hasBigInt (snd p) \<or> anyBigIntProperty ps)"

text \<open>\<^verbatim>\<open>JSON.stringify\<close> throws a TypeError on a BigInt.\<close>

definition JSON_stringify :: "jsval \<Rightarrow> js_error + string option" where
  "JSON_stringify v = (if hasBigInt v then Inl TypeError else Inr (serialize v))"

subsection \<open>SHA-256\<close>

text \<open>
  \<^verbatim>\<open>crypto.createHash('sha256').update(input).digest('hex')\<close> is Node's library, not code
  of the repository. It is modelled by SHA-256 as FIPS 180-4 defines it: 32-bit words are
  integers, reduced modulo \<open>2^32\<close> after every addition; the digest is written as 64
  lower-case hexadecimal digits.
\<close>

definition add32 :: "int \<Rightarrow> int \<Rightarrow> int" where
  "add32 a b = (a + b) mod 4294967296"

definition rotr :: "nat \<Rightarrow> int \<Rightarrow> int" where
  "rotr n x = x div 2 ^ n + (x mod 2 ^ n) * 2 ^ (32 - n)"

definition shr :: "nat \<Rightarrow> int \<Rightarrow> int" where
  "shr n x = x div 2 ^ n"

definition Ch :: "int \<Rightarrow> int \<Rightarrow> int \<Rightarrow> int" where
  "Ch x y z = (x AND y) XOR ((4294967295 - x) AND z)"

definition Maj :: "int \<Rightarrow> int \<Rightarrow> int \<Rightarrow> int" where
  "Maj x y z = (x AND y) XOR (x AND z) XOR (y AND z)"

definition bsig0 :: "int \<Rightarrow> int" where
  "bsig0 x = rotr 2 x XOR rotr 13 x XOR rotr 22 x"

definition bsig1 :: "int \<Rightarrow> int" where
  "bsig1 x = rotr 6 x XOR rotr 11 x XOR rotr 25 x"

definition ssig0 :: "int \<Rightarrow> int" where
  "ssig0 x = rotr 7 x XOR rotr 18 x XOR shr 3 x"

definition ssig1 :: "int \<Rightarrow> int" where
  "ssig1 x = rotr 17 x XOR rotr 19 x XOR shr 10 x"

definition K256 :: "int list" where
  "K256 = [
     1116352408, 1899447441, 3049323471, 3921009573, 961987163, 1508970993,
     2453635748, 2870763221, 3624381080, 310598401, 607225278, 1426881987,
     1925078388, 2162078206, 2614888103, 3248222580, 3835390401, 4022224774,
     264347078, 604807628, 770255983, 1249150122, 1555081692, 1996064986,
     2554220882, 2821834349, 2952996808, 3210313671, 3336571891, 3584528711,
     113926993, 338241895, 666307205, 773529912, 1294757372, 1396182291,
     1695183700, 1986661051, 2177026350, 2456956037, 2730485921, 2820302411,
     3259730800, 3345764771, 3516065817, 3600352804, 4094571909, 275423344,
     430227734, 506948616, 659060556, 883997877, 958139571, 1322822218,
     1537002063, 1747873779, 1955562222, 2024104815, 2227730452, 2361852424,
     2428436474, 2756734187, 3204031479, 3329325298]"

type_synonym sha_state = "int \<times> int \<times> int \<times> int \<times> int \<times> int \<times> int \<times> int"

definition H256 :: sha_state where
  "H256 = (1779033703, 3144134277, 1013904242, 2773480762, 1359893119, 2600822924, 528734635, 1541459225)"

fun schedule :: "nat \<Rightarrow> int list \<Rightarrow> int list" where
  "schedule 0 w = []"
| "schedule (Suc n) w =
     (let x = add32 (add32 (add32 (ssig1 (w ! 14)) (w ! 9)) (ssig0 (w ! 1))) (w ! 0)
      in x # schedule n (tl w @ [x]))"

definition rotate_in :: "int \<Rightarrow> int \<Rightarrow> sha_state \<Rightarrow> sha_state" where
  "rotate_in t1 t2 s = (case s of (a, b, c, d, e, f, g, h) \<Rightarrow>
     (add32 t1 t2, a, b, c, add32 d t1, e, f, g))"

definition sha_round :: "int \<times> int \<Rightarrow> sha_state \<Rightarrow> sha_state" where
  "sha_round kw s = (case s of (a, b, c, d, e, f, g, h) \<Rightarrow>
     rotate_in (add32 (add32 (add32 (add32 h (bsig1 e)) (Ch e f g)) (fst kw)) (snd kw))
               (add32 (bsig0 a) (Maj a b c)) s)"

definition add_state :: "sha_state \<Rightarrow> sha_state \<Rightarrow> sha_state" where
  "add_state s t = (case s of (a, b, c, d, e, f, g, h) \<Rightarrow> case t of (a', b', c', d', e', f', g', h') \<Rightarrow>
     (add32 a a', add32 b b', add32 c c', add32 d d', add32 e e', add32 f f', add32 g g', add32 h h'))"

definition compress :: "sha_state \<Rightarrow> int list \<Rightarrow> sha_state" where
  "compress s block = add_state s (fold sha_round (zip K256 (block @ schedule 48 block)) s)"

fun be_words :: "int list \<Rightarrow> int list" where
  "be_words (a # b # c # d # bs) = (((a * 256 + b) * 256 + c) * 256 + d) # be_words bs"
| "be_words bs = []"

fun blocks_of :: "nat \<Rightarrow> int list \<Rightarrow> int list list" where
  "blocks_of 0 ws = []"
| "blocks_of (Suc n) ws = take 16 ws # blocks_of n (drop 16 ws)"

definition be_bytes8 :: "int \<Rightarrow> int list" where
  "be_bytes8 n = map (\<lambda>i. (n div 256 ^ i) mod 256) [7, 6, 5, 4, 3, 2, 1, 0 :: nat]"

definition pad :: "int list \<Rightarrow> int list" where
  "pad bs = bs @ [128] @ replicate ((64 - (length bs + 9) mod 64) mod 64) 0 @ be_bytes8 (8 * int (length bs))"

definition hex8 :: "int \<Rightarrow> string" where
  "hex8 x = map (\<lambda>i. hexdigit ((x div 16 ^ i) mod 16)) [7, 6, 5, 4, 3, 2, 1, 0 :: nat]"

definition hex_of_state :: "sha_state \<Rightarrow> string" where
  "hex_of_state s = (case s of (a, b, c, d, e, f, g, h) \<Rightarrow>
     hex8 a @ hex8 b @ hex8 c @ hex8 d @ hex8 e @ hex8 f @ hex8 g @ hex8 h)"

fun process_blocks :: "sha_state \<Rightarrow> int list list \<Rightarrow> sha_state" where
  "process_blocks st [] = st"
| "process_blocks st (block # blocks) = process_blocks (compress st block) blocks"

definition sha256_bytes :: "int list \<Rightarrow> string" where
  "sha256_bytes bytes =
     hex_of_state (process_blocks H256 (blocks_of (length bytes div 64) (be_words bytes)))"

definition sha256hex :: "string \<Rightarrow> string" where
  "sha256hex s = sha256_bytes (pad (map (of_char :: char \<Rightarrow> int) s))"

subsection \<open>The cache manager\<close>

text \<open>
  \<^verbatim>\<open>generateKey\<close>. A string is hashed as it is, any other value through
  \<^verbatim>\<open>JSON.stringify\<close>; \<^verbatim>\<open>hash.update\<close> throws a TypeError when it is given \<^verbatim>\<open>undefined\<close>.
\<close>

definition hashInput :: "jsval \<Rightarrow> js_error + string option" where
  "hashInput data = (case data of JStr s \<Rightarrow> Inr (Some s) | _ \<Rightarrow> JSON_stringify data)"

definition generateKey :: "string \<Rightarrow> jsval \<Rightarrow> js_error + string" where
  "generateKey cat data =
     (case hashInput data of
        Inl e \<Rightarrow> Inl e
      | Inr None \<Rightarrow> Inl TypeError
      | Inr (Some input) \<Rightarrow> Inr (cat @ CHR '':'' # sha256hex input))"

text \<open>
  The two backends are outside the repository. The embedded store is the table
  \<^verbatim>\<open>cache\<close> with its primary key: a list of rows by key. The remote service is modelled by
  what its commands promise: \<^verbatim>\<open>SET key value EX ttl\<close> stores the value with an expiry
  \<open>ttl\<close> seconds ahead and refuses a \<open>ttl\<close> that is not positive, \<^verbatim>\<open>GET\<close> returns a value
  until its expiry, \<^verbatim>\<open>KEYS\<close> lists the live keys that match a pattern (the matcher is a
  parameter of the server), \<^verbatim>\<open>DEL\<close> removes keys. A backend whose flag \<open>failing\<close> is set
  raises an error on every command (a lost connection, a closed database).
\<close>

record cache_row =
  row_value :: string
  row_category :: string
  expires_at :: int
  created_at :: int

record sqlite_db =
  rows :: "(string \<times> cache_row) list"
  db_failing :: bool

record redis_server =
  r_store :: "(string \<times> string \<times> int) list"
  r_match :: "string \<Rightarrow> string \<Rightarrow> bool"
  r_failing :: bool

datatype cache_client = NoClient | RedisClient redis_server | SQLiteClient sqlite_db

record cache_config =
  cc_enabled :: bool
  cc_type :: string
  cc_ttl :: "int option"
  cc_categories :: "string \<rightharpoonup> int option"

record cache_manager =
  cm_config :: cache_config
  client :: cache_client
  ready :: bool

definition redis_get :: "redis_server \<Rightarrow> string \<Rightarrow> int \<Rightarrow> js_error + string option" where
  "redis_get r k now =
     (if r_failing r then Inl BackendError
      else Inr (case map_of (r_store r) k of
                  None \<Rightarrow> None
                | Some (v, expiry) \<Rightarrow> if now < expiry then Some v else None))"

definition redis_set_ex :: "redis_server \<Rightarrow> string \<Rightarrow> string \<Rightarrow> int \<Rightarrow> int \<Rightarrow> js_error + redis_server" where
  "redis_set_ex r k v ttl now =
     (if r_failing r \<or> ttl \<le> 0 then Inl BackendError
      else Inr (r\<lparr>r_store := map_set k (v, now + ttl * 1000) (r_store r)\<rparr>))"

definition redis_keys :: "redis_server \<Rightarrow> string \<Rightarrow> int \<Rightarrow> js_error + string list" where
  "redis_keys r pattern now =
     (if r_failing r then Inl BackendError
      else Inr (map fst (filter (\<lambda>e. now < snd (snd e) \<and> r_match r pattern (fst e)) (r_store r))))"

definition redis_del :: "redis_server \<Rightarrow> string list \<Rightarrow> js_error + redis_server" where
  "redis_del r ks =
     (if r_failing r then Inl BackendError
      else Inr (r\<lparr>r_store := filter (\<lambda>e. fst e \<notin> set ks) (r_store r)\<rparr>))"

definition sqlite_get :: "sqlite_db \<Rightarrow> string \<Rightarrow> js_error + cache_row option" where
  "sqlite_get db k = (if db_failing db then Inl BackendError else Inr (map_of (rows db) k))"

text \<open>\<^verbatim>\<open>INSERT OR REPLACE\<close>; the driver refuses to bind \<^verbatim>\<open>undefined\<close>.\<close>

definition sqlite_set :: "sqlite_db \<Rightarrow> string \<Rightarrow> string option \<Rightarrow> string \<Rightarrow> int \<Rightarrow> int \<Rightarrow> js_error + sqlite_db" where
  "sqlite_set db k v cat expires created =
     (if db_failing db then Inl BackendError
      else case v of
             None \<Rightarrow> Inl TypeError
           | Some s \<Rightarrow>
               Inr (db\<lparr>rows := map_set k \<lparr>row_value = s, row_category = cat,
                                          expires_at = expires, created_at = created\<rparr> (rows db)\<rparr>))"

definition sqlite_delete :: "sqlite_db \<Rightarrow> string \<Rightarrow> js_error + sqlite_db" where
  "sqlite_delete db k =
     (if db_failing db then Inl BackendError
      else Inr (db\<lparr>rows := filter (\<lambda>e. fst e \<noteq> k) (rows db)\<rparr>))"

definition sqlite_clear :: "sqlite_db \<Rightarrow> string \<Rightarrow> js_error + sqlite_db" where
  "sqlite_clear db cat =
     (if db_failing db then Inl BackendError
      else Inr (db\<lparr>rows := filter (\<lambda>e. row_category (snd e) \<noteq> cat) (rows db)\<rparr>))"

definition sqlite_cleanup :: "sqlite_db \<Rightarrow> int \<Rightarrow> js_error + sqlite_db" where
  "sqlite_cleanup db now =
     (if db_failing db then Inl BackendError
      else Inr (db\<lparr>rows := filter (\<lambda>e. \<not> expires_at (snd e) < now) (rows db)\<rparr>))"

text \<open>
  \<^verbatim>\<open>getTTL\<close> and the \<^verbatim>\<open>||\<close> chain of \<^verbatim>\<open>set\<close>: a missing or zero value falls through to the
  next one.
\<close>

definition orElse :: "int option \<Rightarrow> int \<Rightarrow> int" where
  "orElse x d = (case x of None \<Rightarrow> d | Some v \<Rightarrow> if v = 0 then d else v)"

definition getTTL :: "cache_manager \<Rightarrow> string \<Rightarrow> int" where
  "getTTL cm cat =
     orElse (case cc_categories (cm_config cm) cat of None \<Rightarrow> None | Some t \<Rightarrow> t)
       (orElse (cc_ttl (cm_config cm)) 3600)"

text \<open>
  The public operations. A result \<open>Inl e\<close> is an exception that leaves the operation
  (a rejected promise); \<open>JNull\<close> is the miss of \<^verbatim>\<open>get\<close>. The \<^verbatim>\<open>try\<close> block of each
  operation turns an error raised inside it into the miss or into \<^verbatim>\<open>false\<close>; the call of
  \<^verbatim>\<open>generateKey\<close> stands before the block. Calling a method of the wrong client, or of
  no client, raises a TypeError inside the block. \<^verbatim>\<open>JSON.parse\<close> is the language's
  parser and a parameter of \<^verbatim>\<open>get\<close>. The redis client writes \<^verbatim>\<open>undefined\<close> as the empty
  string.
\<close>

definition cache_get ::
  "(string \<Rightarrow> js_error + jsval) \<Rightarrow> cache_manager \<Rightarrow> string \<Rightarrow> jsval \<Rightarrow> int \<Rightarrow> js_error + jsval" where
  "cache_get parse cm cat key now =
     (if \<not> ready cm \<or> \<not> cc_enabled (cm_config cm) then Inr JNull
      else case generateKey cat key of
             Inl e \<Rightarrow> Inl e
           | Inr cacheKey \<Rightarrow>
               (case (if cc_type (cm_config cm) = ''redis''
                      then (case client cm of
                              RedisClient r \<Rightarrow>
                                (case redis_get r cacheKey now of
                                   Inl e \<Rightarrow> Inl e
                                 | Inr None \<Rightarrow> Inr JNull
                                 | Inr (Some v) \<Rightarrow> if v = [] then Inr JNull else parse v)
                            | _ \<Rightarrow> Inl TypeError)
                      else (case client cm of
                              SQLiteClient db \<Rightarrow>
                                (case sqlite_get db cacheKey of
                                   Inl e \<Rightarrow> Inl e
                                 | Inr None \<Rightarrow> Inr JNull
                                 | Inr (Some row) \<Rightarrow>
                                     if expires_at row < now then Inr JNull else parse (row_value row))
                            | _ \<Rightarrow> Inl TypeError))
                of Inl e \<Rightarrow> Inr JNull
                 | Inr v \<Rightarrow> Inr v))"

definition cache_set ::
  "cache_manager \<Rightarrow> string \<Rightarrow> jsval \<Rightarrow> jsval \<Rightarrow> int option \<Rightarrow> int \<Rightarrow> (js_error + bool) \<times> cache_manager" where
  "cache_set cm cat key val customTTL now =
     (if \<not> ready cm \<or> \<not> cc_enabled (cm_config cm) then (Inr False, cm)
      else case generateKey cat key of
             Inl e \<Rightarrow> (Inl e, cm)
           | Inr cacheKey \<Rightarrow>
               (let ttl = orElse customTTL (getTTL cm cat);
                    expiresAt = now + ttl * 1000
                in case (case JSON_stringify val of
                           Inl e \<Rightarrow> Inl e
                         | Inr text \<Rightarrow>
                             (if cc_type (cm_config cm) = ''redis''
                              then (case client cm of
                                      RedisClient r \<Rightarrow>
                                        map_sum id RedisClient
                                          (redis_set_ex r cacheKey (case text of None \<Rightarrow> [] | Some s \<Rightarrow> s) ttl now)
                                    | _ \<Rightarrow> Inl TypeError)
                              else (case client cm of
                                      SQLiteClient db \<Rightarrow>
                                        map_sum id SQLiteClient (sqlite_set db cacheKey text cat expiresAt now)
                                    | _ \<Rightarrow> Inl TypeError)))
                   of Inl e \<Rightarrow> (Inr False, cm)
                    | Inr c \<Rightarrow> (Inr True, cm\<lparr>client := c\<rparr>)))"

definition cache_delete ::
  "cache_manager \<Rightarrow> string \<Rightarrow> jsval \<Rightarrow> (js_error + bool) \<times> cache_manager" where
  "cache_delete cm cat key =
     (if \<not> ready cm \<or> \<not> cc_enabled (cm_config cm) then (Inr False, cm)
      else case generateKey cat key of
             Inl e \<Rightarrow> (Inl e, cm)
           | Inr cacheKey \<Rightarrow>
               (case (if cc_type (cm_config cm) = ''redis''
                      then (case client cm of
                              RedisClient r \<Rightarrow> map_sum id RedisClient (redis_del r [cacheKey])
                            | _ \<Rightarrow> Inl TypeError)
                      else (case client cm of
                              SQLiteClient db \<Rightarrow> map_sum id SQLiteClient (sqlite_delete db cacheKey)
                            | _ \<Rightarrow> Inl TypeError))
                of Inl e \<Rightarrow> (Inr False, cm)
                 | Inr c \<Rightarrow> (Inr True, cm\<lparr>client := c\<rparr>)))"

definition cache_clear ::
  "cache_manager \<Rightarrow> string \<Rightarrow> int \<Rightarrow> (js_error + bool) \<times> cache_manager" where
  "cache_clear cm cat now =
     (if \<not> ready cm \<or> \<not> cc_enabled (cm_config cm) then (Inr False, cm)
      else case (if cc_type (cm_config cm) = ''redis''
                 then (case client cm of
                         RedisClient r \<Rightarrow>
                           (case redis_keys r (cat @ '':*'') now of
                              Inl e \<Rightarrow> Inl e
                            | Inr ks \<Rightarrow>
                                if length ks > 0 then map_sum id RedisClient (redis_del r ks)
                                else Inr (RedisClient r))
                       | _ \<Rightarrow> Inl TypeError)
                 else (case client cm of
                         SQLiteClient db \<Rightarrow> map_sum id SQLiteClient (sqlite_clear db cat)
                       | _ \<Rightarrow> Inl TypeError))
           of Inl e \<Rightarrow> (Inr False, cm)
            | Inr c \<Rightarrow> (Inr True, cm\<lparr>client := c\<rparr>))"

definition cache_cleanup :: "cache_manager \<Rightarrow> int \<Rightarrow> cache_manager" where
  "cache_cleanup cm now =
     (if \<not> ready cm \<or> \<not> cc_enabled (cm_config cm) then cm
      else if cc_type (cm_config cm) = ''sqlite''
      then (case client cm of
              SQLiteClient db \<Rightarrow>
                (case sqlite_cleanup db now of Inl e \<Rightarrow> cm | Inr db' \<Rightarrow> cm\<lparr>client := SQLiteClient db'\<rparr>)
            | _ \<Rightarrow> cm)
      else cm)"

section \<open>Notions used to state the properties\<close>

subsection \<open>Proxy rotator\<close>

text \<open>
  The relation between the health flag and the failure count that every status object
  satisfies: unhealthy exactly from the third failure in a row.
\<close>

definition status_ok :: "(string \<rightharpoonup> proxy_status) \<Rightarrow> bool" where
  "status_ok hs = (\<forall>p st. hs p = Some st \<longrightarrow> healthy st = (failCount st < 3))"

definition health_inv :: "proxy_manager \<Rightarrow> bool" where
  "health_inv pm = status_ok (healthStatus pm)"

text \<open>
  A pool with one endpoint: after two failed probes, and after a third failure reported
  by a consumer.
\<close>

definition cfgOne :: proxy_config where
  "cfgOne = \<lparr>pc_enabled = True, pc_providers = [(''http'', [''http://a''])]\<rparr>"

definition pmTwoFailures :: proxy_manager where
  "pmTwoFailures =
     snd (checkProxyHealth (snd (checkProxyHealth (new_ProxyManager cfgOne) ''http://a'' False 0 10))
            ''http://a'' False 20 30)"

definition pmThreeFailures :: proxy_manager where
  "pmThreeFailures = markProxyError pmTwoFailures ''http://a'' ''ECONNRESET''"

definition cfgThree :: proxy_config where
  "cfgThree = \<lparr>pc_enabled = True,
     pc_providers = [(''http'', [''http://a'', ''http://b'']), (''socks'', [''socks5://c''])]\<rparr>"

definition pmUsed :: proxy_manager where
  "pmUsed = (new_ProxyManager cfgThree)
     \<lparr>lastUsed := [''http://a'' \<mapsto> 30, ''http://b'' \<mapsto> 20, ''socks5://c'' \<mapsto> 10]\<rparr>"

text \<open>The same pool with an assignment that names an endpoint the pool no longer has.\<close>

definition pmStale :: proxy_manager where
  "pmStale = pmUsed\<lparr>providerAssignments := [''ResearchHandler'' \<mapsto> [''http://gone'']]\<rparr>"

subsection \<open>Credential rotator\<close>

declare rotateLoop.simps [simp del]

text \<open>A credential is usable when \<^verbatim>\<open>isKeyLimited\<close> returns \<^verbatim>\<open>false\<close> for it.\<close>

definition usable :: "api_key_manager \<Rightarrow> string \<Rightarrow> string \<Rightarrow> int \<Rightarrow> bool" where
  "usable akm provider key now = (isKeyLimited akm provider key now = Inr False)"

text \<open>
  What a rotation returns when the first usable position in its order is \<open>found\<close>: the
  key there, the cursor on it and the time of the rotation recorded for it; with no
  usable position the error, the cursor at \<open>final\<close>.
\<close>

definition rotationResult :: "key_state \<Rightarrow> int \<Rightarrow> nat option \<Rightarrow> nat \<Rightarrow> (key_error + string) \<times> key_state" where
  "rotationResult st now found final =
     (case found of
        None \<Rightarrow> (Inl AllKeysUnavailable, st\<lparr>currentKeyIndex := final\<rparr>)
      | Some i \<Rightarrow> (Inr (keys st ! i),
                   st\<lparr>currentKeyIndex := i, lastRotation := (lastRotation st)(keys st ! i \<mapsto> now)\<rparr>))"

text \<open>
  A provider with three credentials; the first is rate limited and the second is in
  error backoff, both marked at time \<open>1000\<close>.
\<close>

definition cfgKeys :: "string \<rightharpoonup> provider_keys" where
  "cfgKeys = [''serpapi'' \<mapsto> \<lparr>primary = Some ''key-0'', fallback = Some [''key-1'', ''key-2''],
                               retry_delay = None\<rparr>]"

definition akmTwoDown :: api_key_manager where
  "akmTwoDown =
     markKeyError (markKeyLimited (new_ApiKeyManager cfgKeys) ''serpapi'' ''key-0'' None 1000)
       ''serpapi'' ''key-1'' ''HTTP 500'' 1000"

definition stTwoDown :: key_state where
  "stTwoDown = \<lparr>currentKeyIndex = 0, keys = [''key-0'', ''key-1'', ''key-2''],
      rateLimits = [''key-0'' \<mapsto> \<lparr>limitedAt = 1000, resetTime = 61000\<rparr>],
      errors = [''key-1'' \<mapsto> \<lparr>count = 1, ei_lastError = ''HTTP 500'', backoffUntil = 6000\<rparr>],
      lastRotation = Map.empty\<rparr>"

subsection \<open>Scheduler\<close>

text \<open>The two intermediate values of \<^verbatim>\<open>calculateRetryDelay\<close>, by their names in the code.\<close>

definition baseDelayOf :: "retry_config \<Rightarrow> real" where
  "baseDelayOf rc = (case delay rc of None \<Rightarrow> 5000 | Some d \<Rightarrow> if d = 0 then 5000 else d)"

definition cappedDelay :: "retry_config \<Rightarrow> nat \<Rightarrow> real" where
  "cappedDelay rc a = min (baseDelayOf rc * 2 ^ a) 300000"

definition retryDefault :: retry_config where
  "retryDefault = \<lparr>max_attempts = Some 3, delay = Some 5000\<rparr>"

declare executeTask.simps [simp del] runTask.simps [simp del] retryTask.simps [simp del]

text \<open>
  A scheduler with three tiers as its constructor leaves it, a handler that fails on
  every call, and one that fails on its first two calls.
\<close>

definition cfgSched :: scheduler_config where
  "cfgSched = \<lparr>priorities = [(''high'', 5), (''medium'', 3), (''low'', 1)],
               retry = \<lparr>max_attempts = Some 3, delay = Some 5000\<rparr>\<rparr>"

definition envAlwaysFails :: environment where
  "envAlwaysFails = \<lparr>handler = (\<lambda>n. Inl ''ETIMEDOUT''), rand = (\<lambda>n. 1/2)\<rparr>"

definition task0 :: task where
  "task0 = \<lparr>category = ''financial'', priority = None, attempts = 0, task_id = 0\<rparr>"

definition state0 :: scheduler_state where
  "state0 = \<lparr>emitted = [], logged = [], invocations = 0, draws = 0, ids = 0, slept = [],
     queues = [''high'' \<mapsto> \<lparr>concurrency = 5, q_pending = 0, q_size = 0\<rparr>,
               ''medium'' \<mapsto> \<lparr>concurrency = 3, q_pending = 0, q_size = 0\<rparr>,
               ''low'' \<mapsto> \<lparr>concurrency = 1, q_pending = 0, q_size = 0\<rparr>]\<rparr>"

definition envFailsTwice :: environment where
  "envFailsTwice = \<lparr>handler = (\<lambda>n. if n < 2 then Inl ''ETIMEDOUT'' else Inr ''ok''), rand = (\<lambda>n. 1/2)\<rparr>"

definition cfgOneRetry :: scheduler_config where
  "cfgOneRetry = \<lparr>priorities = [(''high'', 5), (''medium'', 3), (''low'', 1)],
               retry = \<lparr>max_attempts = Some 1, delay = Some 5000\<rparr>\<rparr>"

subsection \<open>Result cache\<close>

text \<open>
  Two parameter values are the same to a caller when they are equal, or are objects with
  the same properties, in whatever order the properties were written.
\<close>

definition sameParameters :: "jsval \<Rightarrow> jsval \<Rightarrow> bool" where
  "sameParameters a b =
     (a = b \<or> (case (a, b) of
                  (JObj ps, JObj qs) \<Rightarrow> distinct (map fst ps) \<and> distinct (map fst qs) \<and> set ps = set qs
                | _ \<Rightarrow> False))"

text \<open>The same two parameters of a request, written in the two orders.\<close>

definition paramsA :: jsval where
  "paramsA = JObj [(''symbol'', JStr ''AAPL''), (''period'', JStr ''1y'')]"

definition paramsB :: jsval where
  "paramsB = JObj [(''period'', JStr ''1y''), (''symbol'', JStr ''AAPL'')]"

text \<open>
  The entry a backend holds under a key: the stored text and its expiry time, for either
  backend.
\<close>

definition entryOf :: "cache_client \<Rightarrow> string \<Rightarrow> (string \<times> int) option" where
  "entryOf c k =
     (case c of
        NoClient \<Rightarrow> None
      | RedisClient r \<Rightarrow> map_of (r_store r) k
      | SQLiteClient db \<Rightarrow> map_option (\<lambda>row. (row_value row, expires_at row)) (map_of (rows db) k))"

text \<open>The backend raises an error on every command (or there is no client to call).\<close>

definition backendFails :: "cache_manager \<Rightarrow> bool" where
  "backendFails cm =
     (case client cm of
        NoClient \<Rightarrow> True
      | RedisClient r \<Rightarrow> r_failing r
      | SQLiteClient db \<Rightarrow> db_failing db)"

text \<open>Key material that \<^verbatim>\<open>generateKey\<close> can hash: a string, or a value that serializes to one.\<close>

definition hashable :: "jsval \<Rightarrow> bool" where
  "hashable key = (case hashInput key of Inr (Some input) \<Rightarrow> True | _ \<Rightarrow> False)"

text \<open>
  Example states: an embedded store that still holds a row past its expiry, the same
  cache disabled, and a remote service that has lost its connection. The parser of the
  examples rejects every text; no example reaches it.
\<close>

definition noParse :: "string \<Rightarrow> js_error + jsval" where
  "noParse s = Inl SyntaxError"

definition keyA :: string where
  "keyA = ''financial:4efe3f0e0e7b91c55622364cfea4326237ca4f30aea19c32a7468d83234db83d''"

definition cfgSqlite :: cache_config where
  "cfgSqlite = \<lparr>cc_enabled = True, cc_type = ''sqlite'', cc_ttl = Some 3600,
                cc_categories = [''financial'' \<mapsto> Some 300]\<rparr>"

definition cmSqlite :: cache_manager where
  "cmSqlite = \<lparr>cm_config = cfgSqlite,
     client = SQLiteClient \<lparr>rows = [(keyA, \<lparr>row_value = ''[1,2]'', row_category = ''financial'',
                                              expires_at = 301000, created_at = 1000\<rparr>)],
                             db_failing = False\<rparr>,
     ready = True\<rparr>"

definition cmDisabled :: cache_manager where
  "cmDisabled = cmSqlite\<lparr>cm_config := cfgSqlite\<lparr>cc_enabled := False\<rparr>\<rparr>"

definition cmDown :: cache_manager where
  "cmDown = \<lparr>cm_config = cfgSqlite\<lparr>cc_type := ''redis''\<rparr>,
     client = RedisClient \<lparr>r_store = [], r_match = (\<lambda>pattern k. False), r_failing = True\<rparr>,
     ready = True\<rparr>"

section \<open>Properties of the proxy rotator\<close>

lemma isHealthy_assign [simp]: "isHealthy (pm\<lparr>providerAssignments := a\<rparr>) = isHealthy pm"
  by (rule ext) (simp add: isHealthy_def)

lemma lastUsedOr0_assign [simp]: "lastUsedOr0 (pm\<lparr>providerAssignments := a\<rparr>) = lastUsedOr0 pm"
  by (rule ext) (simp add: lastUsedOr0_def)

lemma isHealthy_warnings [simp]: "isHealthy (pm\<lparr>warnings := w\<rparr>) = isHealthy pm"
  by (rule ext) (simp add: isHealthy_def)

lemma lastUsedOr0_warnings [simp]: "lastUsedOr0 (pm\<lparr>warnings := w\<rparr>) = lastUsedOr0 pm"
  by (rule ext) (simp add: lastUsedOr0_def)

lemma allProxies_warnings [simp]: "allProxies (pm\<lparr>warnings := w\<rparr>) = allProxies pm"
  by (simp add: allProxies_def)

lemma getProxy_unfold_healthy:
  assumes "pc_enabled (pm_config pm)" and "healthyCandidates pm consumer \<noteq> []"
  shows "getProxy stack pm consumer prev now =
     (let pm1 = (case providerAssignments pm consumer of
                   None \<Rightarrow> snd (assignProxiesToProvider pm consumer) | Some ps \<Rightarrow> pm);
          p = selectProxy prev (sort_key (lastUsedOr0 pm) (healthyCandidates pm consumer))
      in (Inr (Some p), pm1\<lparr>lastUsed := (lastUsed pm1)(p \<mapsto> now)\<rparr>))"
  using assms
  apply (subst getProxy.simps)
  apply (auto simp: healthyCandidates_def assignProxiesToProvider_def Let_def
      split: option.splits)
  done

lemma find_sorted_min:
  "sorted (map f xs) \<Longrightarrow> find P xs = Some x \<Longrightarrow> y \<in> set xs \<Longrightarrow> P y \<Longrightarrow> f x \<le> f y"
  by (induction xs) (auto split: if_splits)

lemma hd_sorted_min:
  "sorted (map f xs) \<Longrightarrow> y \<in> set xs \<Longrightarrow> f (hd xs) \<le> f y"
  by (cases xs) auto

lemma find_in_set: "find P xs = Some x \<Longrightarrow> x \<in> set xs \<and> P x"
  by (induction xs) (auto split: if_splits)

lemma selectProxy_in_set: "xs \<noteq> [] \<Longrightarrow> selectProxy prev xs \<in> set xs"
  by (auto simp: selectProxy_def split: option.splits dest: find_in_set)

lemma selectProxy_lru:
  assumes "sorted (map f xs)" "xs \<noteq> []" "q \<in> set xs"
  shows "prev = None \<or> prev = Some [] \<Longrightarrow> f (selectProxy prev xs) \<le> f q"
  using assms by (auto simp: selectProxy_def hd_sorted_min)

lemma selectProxy_avoid:
  assumes "sorted (map f xs)" "[] \<notin> set xs" "prev = Some pp" "pp \<noteq> []" "1 < card (set xs)"
  shows "selectProxy prev xs \<noteq> pp \<and> (\<forall>q\<in>set xs. q \<noteq> pp \<longrightarrow> f (selectProxy prev xs) \<le> f q)"
proof -
  from assms(5) have len: "1 < length xs"
    by (meson card_length le_trans not_le)
  from assms(5) obtain q where q: "q \<in> set xs" "q \<noteq> pp"
    by (metis card_1_singleton_iff card.empty is_singletonI' is_singleton_altdef less_numeral_extra(4) not_one_less_zero)
  then obtain p where p: "find (\<lambda>p. p \<noteq> pp) xs = Some p"
    by (cases "find (\<lambda>p. p \<noteq> pp) xs") (auto simp: find_None_iff)
  then have pin: "p \<in> set xs" "p \<noteq> pp" using find_in_set[OF p] by auto
  with assms(2) have "p \<noteq> []" by auto
  with p len assms(3,4) have sel: "selectProxy prev xs = p" by (simp add: selectProxy_def)
  show ?thesis using sel pin find_sorted_min[OF assms(1) p] by auto
qed

lemma selectProxy_single: "set xs = {pp} \<Longrightarrow> selectProxy prev xs = pp"
  apply (cases xs)
  apply (auto simp: selectProxy_def split: option.splits dest!: find_in_set)
  done

lemma isHealthy_lastUsed [simp]: "isHealthy (pm\<lparr>lastUsed := a\<rparr>) = isHealthy pm"
  by (rule ext) (simp add: isHealthy_def)

lemma allProxies_assign [simp]: "allProxies (pm\<lparr>providerAssignments := a\<rparr>) = allProxies pm"
  by (simp add: allProxies_def)

lemma healthyCandidates_cleared:
  "healthyCandidates (pm\<lparr>warnings := w, providerAssignments := (a)(consumer := None)\<rparr>) consumer
     = filter (isHealthy pm) (allProxies pm)"
  by (simp add: healthyCandidates_def)

lemma sort_key_Nil_iff [simp]: "sort_key f xs = [] \<longleftrightarrow> xs = []"
  using length_sort[of f xs] by (metis length_0_conv)

lemma getProxy_unfold_retry:
  assumes "pc_enabled (pm_config pm)" and "healthyCandidates pm consumer = []"
  shows "getProxy stack pm consumer prev now =
     (let pm2 = pm\<lparr>warnings := warnings pm @ [consumer],
                    providerAssignments := (providerAssignments pm)(consumer := None)\<rparr>
      in case stack of
           0 \<Rightarrow> (Inl RangeError, pm2)
         | Suc deeper \<Rightarrow> getProxy deeper pm2 consumer None now)"
  using assms
  apply (subst getProxy.simps)
  apply (auto simp: healthyCandidates_def assignProxiesToProvider_def Let_def
      split: option.splits nat.splits)
  done

lemma getProxy_exhausts_stack:
  assumes "pc_enabled (pm_config pm)" and "healthyCandidates pm consumer = []"
    and "filter (isHealthy pm) (allProxies pm) = []"
  shows "fst (getProxy stack pm consumer prev now) = Inl RangeError
    \<and> warnings (snd (getProxy stack pm consumer prev now))
        = warnings pm @ replicate (Suc stack) consumer"
  using assms
proof (induction stack arbitrary: pm prev)
  case 0
  then show ?case by (simp add: getProxy_unfold_retry)
next
  case (Suc stack)
  let ?pm2 = "pm\<lparr>warnings := warnings pm @ [consumer],
                 providerAssignments := (providerAssignments pm)(consumer := None)\<rparr>"
  from Suc.prems have step: "getProxy (Suc stack) pm consumer prev now = getProxy stack ?pm2 consumer None now"
    by (simp add: getProxy_unfold_retry)
  from Suc.prems have "pc_enabled (pm_config ?pm2)" "healthyCandidates ?pm2 consumer = []"
    "filter (isHealthy ?pm2) (allProxies ?pm2) = []"
    by (simp_all add: healthyCandidates_cleared)
  from Suc.IH[OF this, of None] step show ?case
    by (simp add: replicate_app_Cons_same)
qed

lemma getProxy_returns_healthy_aux:
  assumes "getProxy stack pm consumer prev now = (r, pm')"
  shows "(\<forall>p. r = Inr (Some p) \<longrightarrow> isHealthy pm p) \<and> healthStatus pm' = healthStatus pm"
  using assms
proof (induction stack arbitrary: pm prev)
  case 0
  show ?case
  proof (cases "pc_enabled (pm_config pm)")
    case False
    with "0.prems" show ?thesis by (auto simp: getProxy.simps)
  next
    case en: True
    show ?thesis
    proof (cases "healthyCandidates pm consumer = []")
      case True
      with en "0.prems" show ?thesis by (auto simp: getProxy_unfold_retry)
    next
      case False
      let ?hs = "healthyCandidates pm consumer"
      let ?p = "selectProxy prev (sort_key (lastUsedOr0 pm) ?hs)"
      from getProxy_unfold_healthy[OF en False, of 0 prev now] "0.prems"
      have y: "r = Inr (Some ?p) \<and> healthStatus pm' = healthStatus pm"
        by (auto simp: assignProxiesToProvider_def Let_def split: option.splits)
      from False have "?p \<in> set (sort_key (lastUsedOr0 pm) ?hs)"
        by (intro selectProxy_in_set) simp
      then have "isHealthy pm ?p" by (simp add: healthyCandidates_def)
      with y show ?thesis by simp
    qed
  qed
next
  case (Suc stack)
  show ?case
  proof (cases "pc_enabled (pm_config pm)")
    case False
    with Suc.prems show ?thesis by (auto simp: getProxy.simps)
  next
    case en: True
    show ?thesis
    proof (cases "healthyCandidates pm consumer = []")
      case True
      let ?pm2 = "pm\<lparr>warnings := warnings pm @ [consumer],
                     providerAssignments := (providerAssignments pm)(consumer := None)\<rparr>"
      from en True Suc.prems have "getProxy stack ?pm2 consumer None now = (r, pm')"
        by (simp add: getProxy_unfold_retry)
      from Suc.IH[OF this] show ?thesis by simp
    next
      case False
      let ?hs = "healthyCandidates pm consumer"
      let ?p = "selectProxy prev (sort_key (lastUsedOr0 pm) ?hs)"
      from getProxy_unfold_healthy[OF en False, of "Suc stack" prev now] Suc.prems
      have y: "r = Inr (Some ?p) \<and> healthStatus pm' = healthStatus pm"
        by (auto simp: assignProxiesToProvider_def Let_def split: option.splits)
      from False have "?p \<in> set (sort_key (lastUsedOr0 pm) ?hs)"
        by (intro selectProxy_in_set) simp
      then have "isHealthy pm ?p" by (simp add: healthyCandidates_def)
      with y show ?thesis by simp
    qed
  qed
qed

lemma status_ok_fresh: "status_ok hs \<Longrightarrow> status_ok (hs(p \<mapsto> fresh_status))"
  by (simp add: status_ok_def fresh_status_def)

lemma foldl_fresh_inv:
  "status_ok hs \<Longrightarrow> status_ok (foldl (\<lambda>hs proxy. hs(proxy \<mapsto> fresh_status)) hs xs)"
  by (induction xs arbitrary: hs) (simp_all add: status_ok_fresh)

lemma init_provider_inv: "health_inv pm \<Longrightarrow> health_inv (init_provider pm provider)"
  by (simp add: health_inv_def init_provider_def foldl_fresh_inv)

lemma foldl_init_provider_inv: "health_inv pm \<Longrightarrow> health_inv (foldl init_provider pm ps)"
  by (induction ps arbitrary: pm) (auto simp: init_provider_inv)

lemma new_ProxyManager_inv: "health_inv (new_ProxyManager cfg)"
proof -
  have "health_inv \<lparr>pm_config = cfg, proxies = [], healthStatus = Map.empty,
                    lastUsed = Map.empty, providerAssignments = Map.empty, warnings = []\<rparr>"
    by (simp add: health_inv_def status_ok_def)
  then show ?thesis
    by (simp add: new_ProxyManager_def pm_initialize_def foldl_init_provider_inv)
qed

lemma updateProxyHealth_inv: "health_inv pm \<Longrightarrow> health_inv (updateProxyHealth pm proxy ok rt now)"
  by (auto simp: health_inv_def status_ok_def updateProxyHealth_def Let_def fresh_status_def split: option.splits)

lemma markProxyError_inv: "health_inv pm \<Longrightarrow> health_inv (markProxyError pm proxy err)"
  by (auto simp: health_inv_def status_ok_def markProxyError_def split: option.splits)

lemma pm_reachable_inv: "pm_reachable pm \<Longrightarrow> health_inv pm"
proof (induction rule: pm_reachable.induct)
  case (pm_init cfg)
  show ?case by (rule new_ProxyManager_inv)
next
  case (pm_update pm proxy ok rt now)
  then show ?case by (simp add: updateProxyHealth_inv)
next
  case (pm_probe pm proxy probe start now)
  then show ?case by (simp add: checkProxyHealth_def updateProxyHealth_inv)
next
  case (pm_error pm proxy err)
  then show ?case by (simp add: markProxyError_inv)
next
  case (pm_select pm stack consumer prev now r pm')
  from getProxy_returns_healthy_aux[OF pm_select.hyps(2)] pm_select.IH show ?case
    by (simp add: health_inv_def)
qed

lemma pmTwoFailures_eval:
  "pmTwoFailures = \<lparr>pm_config = cfgOne, proxies = [(''http'', [''http://a''])],
      healthStatus = [''http://a'' \<mapsto> \<lparr>healthy = True, lastCheck = Some 30, failCount = 2,
                        responseTime = 0, lastError = None\<rparr>],
      lastUsed = Map.empty, providerAssignments = Map.empty, warnings = []\<rparr>"
  by (simp add: pmTwoFailures_def checkProxyHealth_def updateProxyHealth_def new_ProxyManager_def
      pm_initialize_def init_provider_def cfgOne_def fresh_status_def numeral_2_eq_2)

lemma pmThreeFailures_eval:
  "pmThreeFailures = \<lparr>pm_config = cfgOne, proxies = [(''http'', [''http://a''])],
      healthStatus = [''http://a'' \<mapsto> \<lparr>healthy = False, lastCheck = Some 30, failCount = 3,
                        responseTime = 0, lastError = Some ''ECONNRESET''\<rparr>],
      lastUsed = Map.empty, providerAssignments = Map.empty, warnings = []\<rparr>"
  by (simp add: pmThreeFailures_def pmTwoFailures_eval markProxyError_def numeral_3_eq_3)

lemma pmTwoFailures_reachable: "pm_reachable pmTwoFailures"
  unfolding pmTwoFailures_def by (intro pm_probe pm_init)

lemma pmThreeFailures_reachable: "pm_reachable pmThreeFailures"
  unfolding pmThreeFailures_def by (intro pm_error pmTwoFailures_reachable)

text \<open>
  C2. The claim: when a consumer's assigned endpoints hold no healthy proxy, \<^verbatim>\<open>getProxy\<close>
  clears the assignment, retries once against the full pool, and fails when the full pool
  holds no healthy proxy either. In the code the retry is the same function with no
  bound on the nesting: with no healthy proxy among the assigned endpoints nor in the
  full pool, every pass warns, clears the assignment and calls \<^verbatim>\<open>getProxy\<close> again, until
  the call stack is used up. With room for \<open>stack\<close> nested calls the lookup makes
  \<open>stack + 1\<close> passes and is rejected with the engine's RangeError; no pass fails on
  its own account.
\<close>

theorem getProxy_retries_until_stack_exhausted:
  assumes "pc_enabled (pm_config pm)"
    and "healthyCandidates pm consumer = []"
    and "filter (isHealthy pm) (allProxies pm) = []"
  shows "fst (getProxy stack pm consumer prev now) = Inl RangeError
    \<and> warnings (snd (getProxy stack pm consumer prev now))
        = warnings pm @ replicate (Suc stack) consumer"
  using assms by (rule getProxy_exhausts_stack)

text \<open>
  The one-endpoint pool after three failures is a reachable state; with room for 5000
  nested calls the lookup warns 5001 times and is rejected with the RangeError.
\<close>

theorem getProxy_retries_until_stack_exhausted_witness:
  "pm_reachable pmThreeFailures
   \<and> fst (getProxy 5000 pmThreeFailures ''FinancialHandler'' None 40) = Inl RangeError
   \<and> length (warnings (snd (getProxy 5000 pmThreeFailures ''FinancialHandler'' None 40))) = 5001"
proof -
  have "fst (getProxy 5000 pmThreeFailures ''FinancialHandler'' None 40) = Inl RangeError
    \<and> warnings (snd (getProxy 5000 pmThreeFailures ''FinancialHandler'' None 40))
        = warnings pmThreeFailures @ replicate (Suc 5000) ''FinancialHandler''"
    by (rule getProxy_retries_until_stack_exhausted)
       (simp_all add: pmThreeFailures_eval cfgOne_def healthyCandidates_def allProxies_def isHealthy_def)
  with pmThreeFailures_reachable show ?thesis by (simp add: pmThreeFailures_eval)
qed

text \<open>
  C5. In every reachable state of the proxy manager: an endpoint is unhealthy exactly
  when its failure count has reached 3; a successful probe leaves it healthy with count
  0; a failed probe and a consumer-reported error both add one to the same count and
  set the flag from it; and an endpoint that \<^verbatim>\<open>getProxy\<close> returns is healthy.
\<close>

theorem proxy_health_reachable:
  assumes "pm_reachable pm"
  shows "(\<forall>proxy st. healthStatus pm proxy = Some st \<longrightarrow> (\<not> healthy st \<longleftrightarrow> 3 \<le> failCount st))
    \<and> (\<forall>proxy start now. \<exists>st.
          healthStatus (snd (checkProxyHealth pm proxy True start now)) proxy = Some st
          \<and> healthy st \<and> failCount st = 0)
    \<and> (\<forall>proxy st start now. healthStatus pm proxy = Some st \<longrightarrow>
          (\<exists>st'. healthStatus (snd (checkProxyHealth pm proxy False start now)) proxy = Some st'
             \<and> failCount st' = failCount st + 1 \<and> (healthy st' \<longleftrightarrow> failCount st + 1 < 3)))
    \<and> (\<forall>proxy st err. healthStatus pm proxy = Some st \<longrightarrow>
          (\<exists>st'. healthStatus (markProxyError pm proxy err) proxy = Some st'
             \<and> failCount st' = failCount st + 1 \<and> (healthy st' \<longleftrightarrow> failCount st + 1 < 3)))
    \<and> (\<forall>stack consumer prev now p pm'. getProxy stack pm consumer prev now = (Inr (Some p), pm') \<longrightarrow>
          isHealthy pm p \<and> isHealthy pm' p)"
proof (intro conjI allI impI)
  fix proxy st
  assume "healthStatus pm proxy = Some st"
  with pm_reachable_inv[OF assms] show "(\<not> healthy st) = (3 \<le> failCount st)"
    by (auto simp: health_inv_def status_ok_def)
next
  fix proxy start now
  show "\<exists>st. healthStatus (snd (checkProxyHealth pm proxy True start now)) proxy = Some st
          \<and> healthy st \<and> failCount st = 0"
    by (simp add: checkProxyHealth_def updateProxyHealth_def Let_def)
next
  fix proxy st start now
  assume "healthStatus pm proxy = Some st"
  then show "\<exists>st'. healthStatus (snd (checkProxyHealth pm proxy False start now)) proxy = Some st'
             \<and> failCount st' = failCount st + 1 \<and> (healthy st' \<longleftrightarrow> failCount st + 1 < 3)"
    by (simp add: checkProxyHealth_def updateProxyHealth_def Let_def)
next
  fix proxy st err
  assume "healthStatus pm proxy = Some st"
  then show "\<exists>st'. healthStatus (markProxyError pm proxy err) proxy = Some st'
             \<and> failCount st' = failCount st + 1 \<and> (healthy st' \<longleftrightarrow> failCount st + 1 < 3)"
    by (simp add: markProxyError_def)
next
  fix stack consumer prev now p pm'
  assume ret: "getProxy stack pm consumer prev now = (Inr (Some p), pm')"
  from getProxy_returns_healthy_aux[OF ret] show "isHealthy pm p" by simp
  from getProxy_returns_healthy_aux[OF ret] show "isHealthy pm' p" by (simp add: isHealthy_def)
qed

text \<open>
  Two failed probes leave the endpoint healthy and selectable, the third failure flips
  it, one successful probe restores it.
\<close>

theorem proxy_health_reachable_witness:
  "pm_reachable pmTwoFailures
   \<and> (\<exists>st. healthStatus pmTwoFailures ''http://a'' = Some st \<and> healthy st \<and> failCount st = 2)
   \<and> (\<exists>st. healthStatus (markProxyError pmTwoFailures ''http://a'' ''ECONNRESET'') ''http://a'' = Some st
          \<and> \<not> healthy st \<and> failCount st = 3)
   \<and> (\<exists>st. healthStatus (snd (checkProxyHealth pmThreeFailures ''http://a'' True 40 50)) ''http://a'' = Some st
          \<and> healthy st \<and> failCount st = 0)
   \<and> (\<exists>pm'. getProxy 0 pmTwoFailures ''FinancialHandler'' None 40 = (Inr (Some ''http://a''), pm')
          \<and> isHealthy pmTwoFailures ''http://a'')"
proof -
  note two = proxy_health_reachable[OF pmTwoFailures_reachable]
  note three = proxy_health_reachable[OF pmThreeFailures_reachable]
  have st2: "healthStatus pmTwoFailures ''http://a'' = Some \<lparr>healthy = True, lastCheck = Some 30, failCount = 2,
                        responseTime = 0, lastError = None\<rparr>"
    by (simp add: pmTwoFailures_eval)
  from two st2 have c3: "\<exists>st. healthStatus (markProxyError pmTwoFailures ''http://a'' ''ECONNRESET'') ''http://a'' = Some st
          \<and> \<not> healthy st \<and> failCount st = 3"
    by fastforce
  from three have c4: "\<exists>st. healthStatus (snd (checkProxyHealth pmThreeFailures ''http://a'' True 40 50)) ''http://a'' = Some st
          \<and> healthy st \<and> failCount st = 0"
    by blast
  have sel: "getProxy 0 pmTwoFailures ''FinancialHandler'' None 40 =
      (Inr (Some ''http://a''), pmTwoFailures\<lparr>providerAssignments := [''FinancialHandler'' \<mapsto> [''http://a'']],
                                 lastUsed := [''http://a'' \<mapsto> 40]\<rparr>)"
    by (subst getProxy.simps)
       (simp add: pmTwoFailures_eval cfgOne_def assignProxiesToProvider_def allProxies_def isHealthy_def
          selectProxy_def Let_def)
  with two have "isHealthy pmTwoFailures ''http://a''" by blast
  with sel c3 c4 st2 pmTwoFailures_reachable show ?thesis by simp
qed

text \<open>
  C9. When the consumer has a healthy candidate, \<^verbatim>\<open>getProxy\<close> returns one, and records
  the time of use. Without a previous proxy (none, or the empty string) it is a least
  recently used candidate. With
  a previous proxy and more than one healthy candidate it differs from the previous
  proxy and is least recently used among the other candidates. When the previous proxy
  is the only healthy candidate, it is returned. Endpoints are non-empty strings.
\<close>

theorem getProxy_lru_selection:
  assumes en: "pc_enabled (pm_config pm)"
    and ne: "healthyCandidates pm consumer \<noteq> []"
    and wf: "[] \<notin> set (healthyCandidates pm consumer)"
  shows "\<exists>p pm'. getProxy stack pm consumer prev now = (Inr (Some p), pm')
    \<and> p \<in> set (healthyCandidates pm consumer)
    \<and> lastUsed pm' p = Some now
    \<and> (prev = None \<or> prev = Some [] \<longrightarrow>
          (\<forall>q\<in>set (healthyCandidates pm consumer). lastUsedOr0 pm p \<le> lastUsedOr0 pm q))
    \<and> (\<forall>pp. prev = Some pp \<and> pp \<noteq> [] \<and> 1 < card (set (healthyCandidates pm consumer)) \<longrightarrow>
          p \<noteq> pp \<and> (\<forall>q\<in>set (healthyCandidates pm consumer). q \<noteq> pp \<longrightarrow> lastUsedOr0 pm p \<le> lastUsedOr0 pm q))
    \<and> (\<forall>pp. prev = Some pp \<and> set (healthyCandidates pm consumer) = {pp} \<longrightarrow> p = pp)"
proof -
  let ?hs = "healthyCandidates pm consumer"
  let ?xs = "sort_key (lastUsedOr0 pm) ?hs"
  let ?p = "selectProxy prev ?xs"
  have srt: "sorted (map (lastUsedOr0 pm) ?xs)" by simp
  have set_eq: "set ?xs = set ?hs" by simp
  have xs_ne: "?xs \<noteq> []" using ne by simp
  from getProxy_unfold_healthy[OF en ne, of stack prev now]
  obtain pm' where ret: "getProxy stack pm consumer prev now = (Inr (Some ?p), pm')"
    and lu: "lastUsed pm' ?p = Some now"
    by (auto simp: Let_def)
  have mem: "?p \<in> set ?hs" using selectProxy_in_set[OF xs_ne, of prev] set_eq by simp
  have lru: "prev = None \<or> prev = Some [] \<longrightarrow> (\<forall>q\<in>set ?hs. lastUsedOr0 pm ?p \<le> lastUsedOr0 pm q)"
    using selectProxy_lru[OF srt xs_ne] set_eq by blast
  have avoid: "\<forall>pp. prev = Some pp \<and> pp \<noteq> [] \<and> 1 < card (set ?hs) \<longrightarrow>
          ?p \<noteq> pp \<and> (\<forall>q\<in>set ?hs. q \<noteq> pp \<longrightarrow> lastUsedOr0 pm ?p \<le> lastUsedOr0 pm q)"
  proof (intro allI impI)
    fix pp assume a: "prev = Some pp \<and> pp \<noteq> [] \<and> 1 < card (set ?hs)"
    have "[] \<notin> set ?xs" using wf set_eq by simp
    from selectProxy_avoid[OF srt this, of prev pp] a set_eq
    show "?p \<noteq> pp \<and> (\<forall>q\<in>set ?hs. q \<noteq> pp \<longrightarrow> lastUsedOr0 pm ?p \<le> lastUsedOr0 pm q)"
      by simp
  qed
  have single: "\<forall>pp. prev = Some pp \<and> set ?hs = {pp} \<longrightarrow> ?p = pp"
  proof (intro allI impI)
    fix pp assume "prev = Some pp \<and> set ?hs = {pp}"
    with set_eq have "set ?xs = {pp}" by simp
    then show "?p = pp" by (rule selectProxy_single)
  qed
  from ret lu mem lru avoid single show ?thesis by blast
qed

text \<open>
  Three healthy endpoints, last used at 30, 20 and 10; the previous proxy is the least
  recently used one, so the next least recently used one is returned.
\<close>

theorem getProxy_lru_selection_witness:
  "\<exists>pm'. getProxy 0 pmUsed ''ResearchHandler'' (Some ''socks5://c'') 40 = (Inr (Some ''http://b''), pm')"
proof -
  have hs: "healthyCandidates pmUsed ''ResearchHandler'' = [''http://a'', ''http://b'', ''socks5://c'']"
    by (simp add: healthyCandidates_def pmUsed_def new_ProxyManager_def pm_initialize_def
        init_provider_def cfgThree_def allProxies_def isHealthy_def fresh_status_def)
  have en: "pc_enabled (pm_config pmUsed)"
    by (simp add: pmUsed_def new_ProxyManager_def pm_initialize_def init_provider_def cfgThree_def)
  have lu: "lastUsedOr0 pmUsed ''http://a'' = 30" "lastUsedOr0 pmUsed ''http://b'' = 20"
    by (simp_all add: lastUsedOr0_def pmUsed_def)
  have card: "1 < card (set (healthyCandidates pmUsed ''ResearchHandler''))"
    by (simp add: hs)
  from getProxy_lru_selection[of pmUsed "''ResearchHandler''" 0 "Some ''socks5://c''" 40] en
  obtain p pm' where ret: "getProxy 0 pmUsed ''ResearchHandler'' (Some ''socks5://c'') 40 = (Inr (Some p), pm')"
    and mem: "p \<in> set (healthyCandidates pmUsed ''ResearchHandler'')"
    and avoid: "\<forall>pp. Some ''socks5://c'' = Some pp \<and> pp \<noteq> []
           \<and> 1 < card (set (healthyCandidates pmUsed ''ResearchHandler'')) \<longrightarrow>
          p \<noteq> pp \<and> (\<forall>q\<in>set (healthyCandidates pmUsed ''ResearchHandler'').
             q \<noteq> pp \<longrightarrow> lastUsedOr0 pmUsed p \<le> lastUsedOr0 pmUsed q)"
    unfolding hs by auto
  from avoid card have ne: "p \<noteq> ''socks5://c''"
    and le: "\<forall>q\<in>set (healthyCandidates pmUsed ''ResearchHandler'').
             q \<noteq> ''socks5://c'' \<longrightarrow> lastUsedOr0 pmUsed p \<le> lastUsedOr0 pmUsed q"
    by auto
  from le have "lastUsedOr0 pmUsed p \<le> lastUsedOr0 pmUsed ''http://b''" by (simp add: hs)
  with mem ne lu have "p = ''http://b''" by (auto simp: hs)
  with ret show ?thesis by blast
qed

section \<open>Properties of the credential rotator\<close>

lemma keyLimitedIn_cursor [simp]:
  "keyLimitedIn pk (st\<lparr>currentKeyIndex := i\<rparr>) key now = keyLimitedIn pk st key now"
  by (cases pk) (simp_all add: keyLimitedIn_def)

lemma keyLimitedIn_configured: "keyLimitedIn (Some c) st key now \<noteq> Inl e"
  by (simp add: keyLimitedIn_def Let_def)

lemma upt_0_Suc_shift: "[0..<Suc k] = 0 # map Suc [0..<k]"
  by (simp add: upt_conv_Cons map_Suc_upt del: upt_Suc)

lemma rotationResult_cursor [simp]:
  "rotationResult (st\<lparr>currentKeyIndex := i\<rparr>) now found final = rotationResult st now found final"
  by (simp add: rotationResult_def split: option.splits)

lemma rotateLoop_find:
  "a \<le> length (keys st) \<Longrightarrow> currentKeyIndex st < length (keys st) \<Longrightarrow>
   rotateLoop (Some c) st now a =
     rotationResult st now
       (find (\<lambda>i. keyLimitedIn (Some c) st (keys st ! i) now = Inr False)
          (map (\<lambda>j. (currentKeyIndex st + 1 + j) mod length (keys st)) [0..<length (keys st) - a]))
       ((currentKeyIndex st + (length (keys st) - a)) mod length (keys st))"
proof (induction "length (keys st) - a" arbitrary: st a)
  case 0
  then have "a = length (keys st)" and "currentKeyIndex st mod length (keys st) = currentKeyIndex st"
    by simp_all
  then show ?case
    by (subst rotateLoop.simps) (simp add: rotationResult_def)
next
  case (Suc k)
  define n where "n = length (keys st)"
  define cur where "cur = currentKeyIndex st"
  define c1 where "c1 = (cur + 1) mod n"
  define st1 where "st1 = st\<lparr>currentKeyIndex := c1\<rparr>"
  define P where "P = (\<lambda>i. keyLimitedIn (Some c) st (keys st ! i) now = Inr False)"
  from Suc.hyps(2) have lt: "a < n" and kk: "n - (a + 1) = k" and nk: "n - a = Suc k"
    unfolding n_def by linarith+
  from lt have pos: "0 < n" by simp
  have st1_keys: "keys st1 = keys st" and st1_cur: "currentKeyIndex st1 = c1"
    by (simp_all add: st1_def)
  have c1_lt: "c1 < n" using pos by (simp add: c1_def)
  have IH: "rotateLoop (Some c) st1 now (a + 1) =
     rotationResult st1 now
       (find (\<lambda>i. keyLimitedIn (Some c) st1 (keys st1 ! i) now = Inr False)
          (map (\<lambda>j. (currentKeyIndex st1 + 1 + j) mod length (keys st1)) [0..<length (keys st1) - (a + 1)]))
       ((currentKeyIndex st1 + (length (keys st1) - (a + 1))) mod length (keys st1))"
    by (rule Suc.hyps(1)) (use lt kk c1_lt in \<open>simp_all add: st1_keys st1_cur n_def[symmetric]\<close>)
  have P1: "(\<lambda>i. keyLimitedIn (Some c) st1 (keys st1 ! i) now = Inr False) = P"
    by (simp add: st1_def P_def)
  have shift: "(c1 + 1 + j) mod n = (cur + 1 + Suc j) mod n" for j
  proof -
    have "(c1 + 1 + j) mod n = (c1 + (1 + j)) mod n" by (simp only: add.assoc)
    also have "\<dots> = (cur + 1 + (1 + j)) mod n" unfolding c1_def by (rule mod_add_left_eq)
    also have "cur + 1 + (1 + j) = cur + 1 + Suc j" by simp
    finally show ?thesis .
  qed
  have fin: "(c1 + (n - (a + 1))) mod n = (cur + (n - a)) mod n"
  proof -
    have "(c1 + (n - (a + 1))) mod n = (cur + 1 + (n - (a + 1))) mod n"
      unfolding c1_def by (rule mod_add_left_eq)
    also have "cur + 1 + (n - (a + 1)) = cur + (n - a)"
      using lt by linarith
    finally show ?thesis .
  qed
  have IH': "rotateLoop (Some c) st1 now (a + 1) =
     rotationResult st now (find P (map (\<lambda>j. (cur + 1 + Suc j) mod n) [0..<k])) ((cur + (n - a)) mod n)"
  proof -
    have shift': "Suc (c1 + j) mod n = Suc (Suc (cur + j)) mod n" for j
      using shift[of j] by simp
    have kk': "n - Suc a = k" using kk by simp
    have fin': "(c1 + k) mod n = (cur + (n - a)) mod n"
      using fin kk by simp
    have n': "length (keys st) = n" by (simp add: n_def)
    have r: "rotationResult st1 now x y = rotationResult st now x y" for x y
      by (simp add: st1_def)
    show ?thesis
      unfolding IH P1 by (simp add: st1_keys st1_cur n' kk' shift' fin' r)
  qed
  have first: "Suc cur mod n = c1" by (simp add: c1_def)
  have cands: "map (\<lambda>j. (cur + 1 + j) mod n) [0..<n - a] = c1 # map (\<lambda>j. (cur + 1 + Suc j) mod n) [0..<k]"
    unfolding nk upt_0_Suc_shift by (simp add: first comp_def del: upt_Suc)
  have unfold1: "rotateLoop (Some c) st now a =
     (case keyLimitedIn (Some c) st (keys st ! c1) now of
        Inl e \<Rightarrow> (Inl e, st1)
      | Inr False \<Rightarrow> (Inr (keys st ! c1), st1\<lparr>lastRotation := (lastRotation st1)(keys st ! c1 \<mapsto> now)\<rparr>)
      | Inr True \<Rightarrow> rotateLoop (Some c) st1 now (a + 1))"
    using lt unfolding st1_def c1_def cur_def n_def
    by (subst rotateLoop.simps) (simp add: Let_def cong: sum.case_cong bool.case_cong)
  have goal: "rotateLoop (Some c) st now a =
     rotationResult st now (find P (map (\<lambda>j. (cur + 1 + j) mod n) [0..<n - a])) ((cur + (n - a)) mod n)"
  proof (cases "keyLimitedIn (Some c) st (keys st ! c1) now")
    case (Inl e)
    then show ?thesis using keyLimitedIn_configured by blast
  next
    case (Inr b)
    show ?thesis
    proof (cases b)
      case False
      with Inr have "P c1" by (simp add: P_def)
      with Inr False show ?thesis
        unfolding unfold1 cands by (simp add: rotationResult_def st1_def)
    next
      case True
      with Inr have "\<not> P c1" by (simp add: P_def)
      with Inr True show ?thesis
        unfolding unfold1 cands IH' by simp
    qed
  qed
  then show ?case unfolding n_def cur_def P_def .
qed

lemma rotation_inj_le:
  assumes "j < n" "j' < n" "j \<le> j'" "(c + 1 + j) mod n = (c + 1 + j') mod n"
  shows "j = (j'::nat)"
proof (rule ccontr)
  assume "j \<noteq> j'"
  with assms(3) have pos: "0 < j' - j" by simp
  have "(c + 1 + j') mod n = (c + 1 + j) mod n" using assms(4) by simp
  then have "n dvd (c + 1 + j') - (c + 1 + j)"
    using assms(3) by (subst (asm) mod_eq_dvd_iff_nat) simp_all
  then have "n dvd j' - j" by simp
  moreover have "j' - j < n" using assms(2) by simp
  ultimately show False using pos nat_dvd_not_less by blast
qed

lemma rotation_inj:
  assumes "j < n" "j' < n" "(c + 1 + j) mod n = (c + 1 + j') mod n"
  shows "j = (j'::nat)"
proof (cases "j \<le> j'")
  case True
  from assms(1,2) True assms(3) show ?thesis by (rule rotation_inj_le)
next
  case False
  then have le: "j' \<le> j" by simp
  from assms(3) have "(c + 1 + j') mod n = (c + 1 + j) mod n" by simp
  with assms(2,1) le have "j' = j" by (rule rotation_inj_le)
  then show ?thesis by simp
qed

lemma rotationOrder_distinct: "distinct (rotationOrder st)"
proof -
  have "inj_on (\<lambda>j. (currentKeyIndex st + 1 + j) mod length (keys st)) {0..<length (keys st)}"
    by (rule inj_onI) (auto dest: rotation_inj)
  then show ?thesis
    unfolding rotationOrder_def by (simp add: distinct_map del: upt_Suc)
qed

lemma rotationOrder_set: "set (rotationOrder st) = {..<length (keys st)}"
proof -
  let ?n = "length (keys st)"
  have sub: "set (rotationOrder st) \<subseteq> {..<?n}"
  proof
    fix i assume "i \<in> set (rotationOrder st)"
    then obtain j where "j < ?n" and i: "i = (currentKeyIndex st + 1 + j) mod ?n"
      by (auto simp: rotationOrder_def)
    then have "0 < ?n" by (cases "keys st") auto
    then show "i \<in> {..<?n}" unfolding i by simp
  qed
  have "card (set (rotationOrder st)) = length (rotationOrder st)"
    using rotationOrder_distinct by (rule distinct_card)
  also have "\<dots> = card {..<?n}" by (simp add: rotationOrder_def)
  finally show ?thesis using sub by (simp add: card_subset_eq)
qed

lemma getKey_current:
  assumes st: "keyStates akm provider = Some st" and ne: "keys st \<noteq> []"
    and ok: "usable akm provider (keys st ! currentKeyIndex st) now"
  shows "getKey akm provider now = (Inr (keys st ! currentKeyIndex st), akm)"
  using assms by (simp add: getKey_def usable_def Let_def)

lemma keyStates_same [simp]:
  "keyStates akm provider = Some st \<Longrightarrow> akm\<lparr>keyStates := (keyStates akm)(provider \<mapsto> st)\<rparr> = akm"
  by (simp add: map_upd_triv)

lemma getKey_rotates:
  assumes st: "keyStates akm provider = Some st" and cfg: "akm_config akm provider = Some c"
    and ne: "keys st \<noteq> []" and cur: "currentKeyIndex st < length (keys st)"
    and lim: "\<not> usable akm provider (keys st ! currentKeyIndex st) now"
  shows "getKey akm provider now =
     (case find (\<lambda>i. usable akm provider (keys st ! i) now) (rotationOrder st) of
        None \<Rightarrow> (Inl AllKeysUnavailable, akm)
      | Some i \<Rightarrow> (Inr (keys st ! i),
                   akm\<lparr>keyStates := (keyStates akm)(provider \<mapsto>
                     st\<lparr>currentKeyIndex := i, lastRotation := (lastRotation st)(keys st ! i \<mapsto> now)\<rparr>)\<rparr>))"
proof -
  have us: "usable akm provider k now = (keyLimitedIn (Some c) st k now = Inr False)" for k
    by (simp add: usable_def isKeyLimited_def st cfg)
  obtain b where b: "keyLimitedIn (Some c) st (keys st ! currentKeyIndex st) now = Inr b"
    using keyLimitedIn_configured[of c st] by (meson sum.exhaust_sel sumE)
  with lim have "b" by (simp add: us)
  with b have "isKeyLimited akm provider (keys st ! currentKeyIndex st) now = Inr True"
    by (simp add: isKeyLimited_def st cfg)
  with st ne have g: "getKey akm provider now = rotateKey akm provider now"
    by (simp add: getKey_def Let_def)
  have wrap: "(currentKeyIndex st + length (keys st)) mod length (keys st) = currentKeyIndex st"
    using cur by simp
  have loop: "rotateLoop (Some c) st now 0 =
     rotationResult st now (find (\<lambda>i. usable akm provider (keys st ! i) now) (rotationOrder st))
       (currentKeyIndex st)"
    using rotateLoop_find[of 0 st c now] cur wrap by (simp add: rotationOrder_def us)
  show ?thesis
    unfolding g rotateKey_def
    by (simp add: st cfg loop rotationResult_def st split: option.splits)
qed

lemma usable_iff:
  assumes st: "keyStates akm provider = Some st" and cfg: "akm_config akm provider = Some c"
  shows "usable akm provider k now \<longleftrightarrow>
           \<not> (\<exists>info. rateLimits st k = Some info \<and> now < resetTime info)
         \<and> \<not> (\<exists>info. errors st k = Some info \<and> now < backoffUntil info)
         \<and> \<not> (\<exists>t. lastRotation st k = Some t \<and> t \<noteq> 0
                  \<and> now - t < (case retry_delay c of None \<Rightarrow> 1000 | Some d \<Rightarrow> if d = 0 then 1000 else d))"
  by (auto simp: usable_def isKeyLimited_def keyLimitedIn_def st cfg Let_def split: option.splits)

text \<open>
  C4. For a configured provider with a non-empty credential list and the cursor on it:
  \<^verbatim>\<open>getKey\<close> returns the credential at the cursor when it is usable and leaves the
  manager as it is; otherwise it returns the first usable credential in the rotation
  order, moves the cursor to it and records the rotation time, and with no usable
  credential it fails with the error that all keys are unavailable. The rotation order
  holds every position exactly once. A credential is usable when it is not rate limited,
  not in error backoff, and the minimum rotation interval has passed since the last
  rotation to it.
\<close>

theorem getKey_selection:
  assumes st: "keyStates akm provider = Some st" and cfg: "akm_config akm provider = Some c"
    and ne: "keys st \<noteq> []" and cur: "currentKeyIndex st < length (keys st)"
  shows "(usable akm provider (keys st ! currentKeyIndex st) now \<longrightarrow>
            getKey akm provider now = (Inr (keys st ! currentKeyIndex st), akm))
    \<and> (\<not> usable akm provider (keys st ! currentKeyIndex st) now \<longrightarrow>
          getKey akm provider now =
            (case find (\<lambda>i. usable akm provider (keys st ! i) now) (rotationOrder st) of
               None \<Rightarrow> (Inl AllKeysUnavailable, akm)
             | Some i \<Rightarrow> (Inr (keys st ! i),
                   akm\<lparr>keyStates := (keyStates akm)(provider \<mapsto>
                     st\<lparr>currentKeyIndex := i, lastRotation := (lastRotation st)(keys st ! i \<mapsto> now)\<rparr>)\<rparr>)))
    \<and> distinct (rotationOrder st) \<and> set (rotationOrder st) = {..<length (keys st)}
    \<and> (\<forall>k. usable akm provider k now \<longleftrightarrow>
           \<not> (\<exists>info. rateLimits st k = Some info \<and> now < resetTime info)
         \<and> \<not> (\<exists>info. errors st k = Some info \<and> now < backoffUntil info)
         \<and> \<not> (\<exists>t. lastRotation st k = Some t \<and> t \<noteq> 0
                  \<and> now - t < (case retry_delay c of None \<Rightarrow> 1000 | Some d \<Rightarrow> if d = 0 then 1000 else d)))"
  using getKey_current[OF st ne] getKey_rotates[OF st cfg ne cur]
    rotationOrder_distinct rotationOrder_set usable_iff[OF st cfg]
  by blast

lemma akmTwoDown_state: "keyStates akmTwoDown ''serpapi'' = Some stTwoDown"
  by (simp add: akmTwoDown_def stTwoDown_def markKeyError_def markKeyLimited_def new_ApiKeyManager_def
      cfgKeys_def initial_key_state_def Let_def)

lemma akmTwoDown_config: "akm_config akmTwoDown ''serpapi'' =
    Some \<lparr>primary = Some ''key-0'', fallback = Some [''key-1'', ''key-2''], retry_delay = None\<rparr>"
  by (simp add: akmTwoDown_def markKeyError_def markKeyLimited_def new_ApiKeyManager_def
      cfgKeys_def initial_key_state_def Let_def)

text \<open>
  Three credentials, the first rate limited and the second in error backoff: the third
  is returned; once the third is rate limited too, the lookup fails.
\<close>

theorem getKey_selection_witness:
  "fst (getKey akmTwoDown ''serpapi'' 2000) = Inr ''key-2''
   \<and> fst (getKey (markKeyLimited akmTwoDown ''serpapi'' ''key-2'' None 1000) ''serpapi'' 2000)
        = Inl AllKeysUnavailable"
proof -
  have us: "usable akmTwoDown ''serpapi'' k 2000 = (k \<noteq> ''key-0'' \<and> k \<noteq> ''key-1'')" for k
    by (simp add: usable_def isKeyLimited_def akmTwoDown_state akmTwoDown_config keyLimitedIn_def
        stTwoDown_def)
  have ro: "rotationOrder stTwoDown = [1, 2, 0]"
    by (simp add: rotationOrder_def stTwoDown_def upt_conv_Cons)
  have 1: "fst (getKey akmTwoDown ''serpapi'' 2000) = Inr ''key-2''"
    using getKey_selection[OF akmTwoDown_state akmTwoDown_config, of 2000]
    by (simp add: us ro) (simp add: stTwoDown_def)
  let ?akm3 = "markKeyLimited akmTwoDown ''serpapi'' ''key-2'' None 1000"
  let ?st3 = "stTwoDown\<lparr>rateLimits := (rateLimits stTwoDown)(''key-2'' \<mapsto> \<lparr>limitedAt = 1000, resetTime = 61000\<rparr>)\<rparr>"
  have st3: "keyStates ?akm3 ''serpapi'' = Some ?st3"
    by (simp add: markKeyLimited_def akmTwoDown_state)
  have cfg3: "akm_config ?akm3 ''serpapi'' =
    Some \<lparr>primary = Some ''key-0'', fallback = Some [''key-1'', ''key-2''], retry_delay = None\<rparr>"
    by (simp add: markKeyLimited_def akmTwoDown_state akmTwoDown_config)
  have us3: "usable ?akm3 ''serpapi'' k 2000 = (k \<noteq> ''key-0'' \<and> k \<noteq> ''key-1'' \<and> k \<noteq> ''key-2'')" for k
    unfolding usable_def isKeyLimited_def st3 cfg3
    by (simp add: keyLimitedIn_def stTwoDown_def)
  have ro3: "rotationOrder ?st3 = [1, 2, 0]"
    by (simp add: rotationOrder_def stTwoDown_def upt_conv_Cons)
  have 2: "fst (getKey ?akm3 ''serpapi'' 2000) = Inl AllKeysUnavailable"
    using getKey_selection[OF st3 cfg3, of 2000]
    by (simp add: us3 ro3) (simp add: stTwoDown_def)
  from 1 2 show ?thesis by simp
qed

text \<open>
  C7. For a configured provider: \<^verbatim>\<open>markKeyError\<close> stores the error count raised by one
  and a backoff time of now plus the smaller of count times 5000 ms and 300000 ms, and
  the credential is limited before that time; \<^verbatim>\<open>markKeyLimited\<close> without a reset time
  stores now plus 60000 ms, and the credential is limited before that time.
\<close>

theorem markKey_backoff:
  assumes st: "keyStates akm provider = Some st"
  shows "(\<exists>st' e. keyStates (markKeyError akm provider key err now) provider = Some st'
            \<and> errors st' key = Some e
            \<and> count e = (case errors st key of None \<Rightarrow> 0 | Some e0 \<Rightarrow> count e0) + 1
            \<and> backoffUntil e = now + min (int (count e) * 5000) 300000
            \<and> backoffUntil e \<le> now + 300000
            \<and> (\<forall>t. t < backoffUntil e \<longrightarrow>
                  isKeyLimited (markKeyError akm provider key err now) provider key t = Inr True))
    \<and> (\<exists>st' r. keyStates (markKeyLimited akm provider key None now) provider = Some st'
            \<and> rateLimits st' key = Some r
            \<and> resetTime r = now + 60000
            \<and> (\<forall>t. t < now + 60000 \<longrightarrow>
                  isKeyLimited (markKeyLimited akm provider key None now) provider key t = Inr True))"
  using st
  by (auto simp: markKeyError_def markKeyLimited_def isKeyLimited_def keyLimitedIn_def Let_def)

text \<open>A second error at time 3000 backs off until 13000; a rate limit at 3000 lasts until 63000.\<close>

theorem markKey_backoff_witness:
  "(\<exists>st' e. keyStates (markKeyError akmTwoDown ''serpapi'' ''key-1'' ''HTTP 502'' 3000) ''serpapi'' = Some st'
        \<and> errors st' ''key-1'' = Some e \<and> count e = 2 \<and> backoffUntil e = 13000)
   \<and> isKeyLimited (markKeyError akmTwoDown ''serpapi'' ''key-1'' ''HTTP 502'' 3000) ''serpapi'' ''key-1'' 12999 = Inr True
   \<and> (\<exists>st' r. keyStates (markKeyLimited akmTwoDown ''serpapi'' ''key-2'' None 3000) ''serpapi'' = Some st'
        \<and> rateLimits st' ''key-2'' = Some r \<and> resetTime r = 63000)
   \<and> isKeyLimited (markKeyLimited akmTwoDown ''serpapi'' ''key-2'' None 3000) ''serpapi'' ''key-2'' 62999 = Inr True"
proof -
  have e0: "errors stTwoDown ''key-1'' = Some \<lparr>count = 1, ei_lastError = ''HTTP 500'', backoffUntil = 6000\<rparr>"
    by (simp add: stTwoDown_def)
  from markKey_backoff[OF akmTwoDown_state, of "''key-1''" "''HTTP 502''" 3000]
  obtain st' e where 1: "keyStates (markKeyError akmTwoDown ''serpapi'' ''key-1'' ''HTTP 502'' 3000) ''serpapi'' = Some st'"
      "errors st' ''key-1'' = Some e" "count e = 2" "backoffUntil e = 13000"
    and lim1: "\<forall>t. t < backoffUntil e \<longrightarrow>
         isKeyLimited (markKeyError akmTwoDown ''serpapi'' ''key-1'' ''HTTP 502'' 3000) ''serpapi'' ''key-1'' t = Inr True"
    by (auto simp: e0)
  from markKey_backoff[OF akmTwoDown_state, of "''key-2''" "''HTTP 502''" 3000]
  obtain st'' r where 2: "keyStates (markKeyLimited akmTwoDown ''serpapi'' ''key-2'' None 3000) ''serpapi'' = Some st''"
      "rateLimits st'' ''key-2'' = Some r" "resetTime r = 63000"
    and lim2: "\<forall>t. t < 3000 + 60000 \<longrightarrow>
         isKeyLimited (markKeyLimited akmTwoDown ''serpapi'' ''key-2'' None 3000) ''serpapi'' ''key-2'' t = Inr True"
    by auto
  from lim1 1(4) have a: "isKeyLimited (markKeyError akmTwoDown ''serpapi'' ''key-1'' ''HTTP 502'' 3000) ''serpapi'' ''key-1'' 12999 = Inr True"
    by simp
  from lim2 have b: "isKeyLimited (markKeyLimited akmTwoDown ''serpapi'' ''key-2'' None 3000) ''serpapi'' ''key-2'' 62999 = Inr True"
    by simp
  from 1 2 a b show ?thesis by blast
qed

section \<open>Properties of the scheduler\<close>

lemma calculateRetryDelay_alt:
  "calculateRetryDelay rc a r = \<lfloor>cappedDelay rc a + cappedDelay rc a * 0.2 * (r - 0.5)\<rfloor>"
  by (simp add: calculateRetryDelay_def cappedDelay_def baseDelayOf_def Let_def)

text \<open>
  The jitter of the code is 0.2 times the capped delay times (draw - 0.5): the delay,
  rounded down, stays within a tenth of the capped delay on either side.
\<close>

lemma calculateRetryDelay_tight:
  assumes r0: "0 \<le> r" and r1: "r < 1" and b0: "0 \<le> baseDelayOf rc"
  shows "0.9 * cappedDelay rc a - 1 < real_of_int (calculateRetryDelay rc a r)"
    and "real_of_int (calculateRetryDelay rc a r) \<le> 1.1 * cappedDelay rc a"
proof -
  let ?e = "cappedDelay rc a"
  let ?v = "?e + ?e * 0.2 * (r - 0.5)"
  let ?d = "calculateRetryDelay rc a r"
  have d: "?d = \<lfloor>?v\<rfloor>" by (rule calculateRetryDelay_alt)
  have e0: "0 \<le> ?e" using b0 by (simp add: cappedDelay_def)
  have lo: "0.9 * ?e \<le> ?v"
  proof -
    have "?v - 0.9 * ?e = ?e * (0.2 * r)" by (simp add: field_simps)
    also have "0 \<le> ?e * (0.2 * r)" using e0 r0 by simp
    finally show ?thesis by simp
  qed
  have hi: "?v \<le> 1.1 * ?e"
  proof -
    have "1.1 * ?e - ?v = ?e * (0.2 * (1 - r))" by (simp add: field_simps)
    also have "0 \<le> ?e * (0.2 * (1 - r))" using e0 r1 by simp
    finally show ?thesis by simp
  qed
  show "0.9 * ?e - 1 < real_of_int ?d"
    unfolding d using lo by linarith
  show "real_of_int ?d \<le> 1.1 * ?e"
    unfolding d using hi by linarith
qed

text \<open>
  C3, as amended. For a random draw in \<open>[0, 1)\<close> and a non-negative base delay, the
  retry delay is the capped exponential delay min(base delay * 2^attempt, 300000 ms)
  moved by a jitter of at most a fifth of it in either direction and rounded down. The
  jitter is added after the cap, so the delay is bounded by 1.2 times the cap, 360000
  ms. With a base delay of 5000 ms the delay of attempt 0 lies in [4000, 6000] and the
  delay of attempt 3 in [32000, 48000].
\<close>

theorem calculateRetryDelay_bounds:
  assumes r0: "0 \<le> r" and r1: "r < 1" and b0: "0 \<le> baseDelayOf rc"
  shows "cappedDelay rc a = min (baseDelayOf rc * 2 ^ a) 300000
    \<and> 0.8 * cappedDelay rc a - 1 < real_of_int (calculateRetryDelay rc a r)
    \<and> real_of_int (calculateRetryDelay rc a r) \<le> 1.2 * cappedDelay rc a
    \<and> calculateRetryDelay rc a r \<le> 360000
    \<and> (baseDelayOf rc = 5000 \<and> a = 0 \<longrightarrow>
          4000 \<le> calculateRetryDelay rc a r \<and> calculateRetryDelay rc a r \<le> 6000)
    \<and> (baseDelayOf rc = 5000 \<and> a = 3 \<longrightarrow>
          32000 \<le> calculateRetryDelay rc a r \<and> calculateRetryDelay rc a r \<le> 48000)"
proof -
  let ?e = "cappedDelay rc a"
  let ?d = "calculateRetryDelay rc a r"
  note tight = calculateRetryDelay_tight[OF r0 r1 b0, of a]
  have e0: "0 \<le> ?e" using b0 by (simp add: cappedDelay_def)
  have e1: "?e \<le> 300000" by (simp add: cappedDelay_def)
  have lower: "0.8 * ?e - 1 < real_of_int ?d" using tight(1) e0 by linarith
  have upper: "real_of_int ?d \<le> 1.2 * ?e" using tight(2) e0 by linarith
  have cap: "?d \<le> 360000"
  proof -
    have "real_of_int ?d \<le> 360000" using upper e1 by linarith
    then show ?thesis by linarith
  qed
  have a0: "baseDelayOf rc = 5000 \<and> a = 0 \<longrightarrow> 4000 \<le> ?d \<and> ?d \<le> 6000"
  proof
    assume h: "baseDelayOf rc = 5000 \<and> a = 0"
    then have e: "?e = 5000" by (simp add: cappedDelay_def)
    from lower upper have "3999 < real_of_int ?d" "real_of_int ?d \<le> 6000" unfolding e by simp_all
    then show "4000 \<le> ?d \<and> ?d \<le> 6000" by linarith
  qed
  have a3: "baseDelayOf rc = 5000 \<and> a = 3 \<longrightarrow> 32000 \<le> ?d \<and> ?d \<le> 48000"
  proof
    assume h: "baseDelayOf rc = 5000 \<and> a = 3"
    then have e: "?e = 40000" by (simp add: cappedDelay_def)
    from lower upper have "31999 < real_of_int ?d" "real_of_int ?d \<le> 48000" unfolding e by simp_all
    then show "32000 \<le> ?d \<and> ?d \<le> 48000" by linarith
  qed
  from lower upper cap a0 a3 show ?thesis by (simp add: cappedDelay_def)
qed

text \<open>
  C3 as stated bounds the delay by the cap of 300000 ms. The jitter is added after the
  cap: at attempt 6 with the draw 3/4 the delay is 315000 ms.
\<close>

theorem calculateRetryDelay_exceeds_max_delay:
  "\<not> calculateRetryDelay retryDefault 6 (3/4) \<le> 300000"
  by (simp add: calculateRetryDelay_def retryDefault_def Let_def)

lemma delay_eval: "calculateRetryDelay retryDefault 6 (3/4) = 315000"
  by (simp add: calculateRetryDelay_def retryDefault_def Let_def)

text \<open>The bounds at the draw 3/4 for attempts 0, 3 and 6.\<close>

theorem calculateRetryDelay_bounds_witness:
  "calculateRetryDelay retryDefault 0 (3/4) = 5250
   \<and> 4000 \<le> calculateRetryDelay retryDefault 0 (3/4) \<and> calculateRetryDelay retryDefault 0 (3/4) \<le> 6000
   \<and> 32000 \<le> calculateRetryDelay retryDefault 3 (3/4) \<and> calculateRetryDelay retryDefault 3 (3/4) \<le> 48000
   \<and> calculateRetryDelay retryDefault 6 (3/4) \<le> 360000"
proof -
  have b: "baseDelayOf retryDefault = 5000" by (simp add: baseDelayOf_def retryDefault_def)
  have r: "(0::real) \<le> 3/4" "(3/4::real) < 1" "0 \<le> baseDelayOf retryDefault" using b by simp_all
  have v: "calculateRetryDelay retryDefault 0 (3/4) = 5250"
    by (simp add: calculateRetryDelay_def retryDefault_def Let_def)
  from calculateRetryDelay_bounds[OF r, of 0] calculateRetryDelay_bounds[OF r, of 3]
    calculateRetryDelay_bounds[OF r, of 6] b v
  show ?thesis by simp
qed

lemma queueName_attempts [simp]: "queueName (t\<lparr>attempts := n\<rparr>) = queueName t"
  by (simp add: queueName_def)

lemma queueName_task_id [simp]: "queueName (t\<lparr>task_id := n\<rparr>) = queueName t"
  by (simp add: queueName_def)

lemma runTask_retries:
  assumes e: "handler env (invocations s) = Inl e"
    and m: "max_attempts (retry cfg) = Some m" and a: "attempts t < m"
  shows "runTask cfg env t s =
     executeTask cfg env (t\<lparr>attempts := attempts t + 1\<rparr>)
       (s\<lparr>emitted := emitted s @ [TaskStart (task_id t) (category t) (attempts t)],
          invocations := invocations s + 1,
          draws := draws s + 1,
          logged := logged s @ [LogRetry (task_id t)
                      (calculateRetryDelay (retry cfg) (attempts t) (rand env (draws s)))],
          slept := slept s @ [calculateRetryDelay (retry cfg) (attempts t) (rand env (draws s))]\<rparr>)"
  apply (subst runTask.simps)
  apply (simp add: Let_def emit_def e mayRetry_def m a)
  apply (subst retryTask.simps)
  apply (simp add: Let_def)
  done

lemma executeTask_waits:
  assumes "queues s (queueName t) = Some q" and "\<not> q_pending q < concurrency q"
  shows "executeTask cfg env t s =
     (Pending, s\<lparr>ids := ids s + 1, queues := (queues s)(queueName t \<mapsto> q\<lparr>q_size := q_size q + 1\<rparr>)\<rparr>)"
  using assms by (subst executeTask.simps) (simp add: Let_def)

lemma executeTask_starts:
  assumes "queues s (queueName t) = Some q" and "q_pending q < concurrency q"
  shows "executeTask cfg env t s =
     (case runTask cfg env (t\<lparr>task_id := ids s, attempts := 0\<rparr>)
             (s\<lparr>ids := ids s + 1,
                queues := (queues s)(queueName t \<mapsto> q\<lparr>q_pending := q_pending q + 1\<rparr>)\<rparr>) of
        (Resolved result, s2) \<Rightarrow> (Resolved result, queue_next (queueName t) s2)
      | (Rejected error, s2) \<Rightarrow>
          (Rejected error, (queue_next (queueName t) s2)
             \<lparr>logged := logged (queue_next (queueName t) s2) @ [LogExecutionFailed (ids s)]\<rparr>)
      | (Pending, s2) \<Rightarrow> (Pending, s2))"
  using assms by (subst executeTask.simps) (simp add: Let_def split: prod.splits outcome.splits)

lemma executeTask_deadlock:
  assumes fails: "\<forall>n. \<exists>e. handler env n = Inl e"
    and m: "max_attempts (retry cfg) = Some m" and pos: "0 < m"
  shows "queues s (queueName t) = Some q \<Longrightarrow> concurrency q - q_pending q = f \<Longrightarrow>
    (\<exists>s'. executeTask cfg env t s = (Pending, s')
       \<and> invocations s' = invocations s + f
       \<and> emitted s' = emitted s @ map (\<lambda>k. TaskStart (ids s + k) (category t) 0) [0..<f]
       \<and> (\<exists>q'. queues s' (queueName t) = Some q' \<and> concurrency q' \<le> q_pending q'
             \<and> q_size q' = q_size q + 1))"
proof (induction f arbitrary: s t q)
  case 0
  then have full: "\<not> q_pending q < concurrency q" by simp
  show ?case using full by (simp add: executeTask_waits[OF "0.prems"(1) full])
next
  case (Suc f)
  from Suc.prems have free: "q_pending q < concurrency q" by simp
  let ?qt = "t\<lparr>task_id := ids s, attempts := 0\<rparr>"
  let ?q1 = "q\<lparr>q_pending := q_pending q + 1\<rparr>"
  let ?s1 = "s\<lparr>ids := ids s + 1, queues := (queues s)(queueName t \<mapsto> ?q1)\<rparr>"
  let ?d = "calculateRetryDelay (retry cfg) (attempts ?qt) (rand env (draws ?s1))"
  let ?s3 = "?s1\<lparr>emitted := emitted ?s1 @ [TaskStart (task_id ?qt) (category ?qt) (attempts ?qt)],
          invocations := invocations ?s1 + 1,
          draws := draws ?s1 + 1,
          logged := logged ?s1 @ [LogRetry (task_id ?qt) ?d],
          slept := slept ?s1 @ [?d]\<rparr>"
  let ?t3 = "?qt\<lparr>attempts := attempts ?qt + 1\<rparr>"
  obtain e where e: "handler env (invocations ?s1) = Inl e" using fails by blast
  have a: "attempts ?qt < m" using pos by simp
  have run: "runTask cfg env ?qt ?s1 = executeTask cfg env ?t3 ?s3"
    by (rule runTask_retries[OF e m a])
  have q3: "queues ?s3 (queueName ?t3) = Some ?q1" by simp
  have f3: "concurrency ?q1 - q_pending ?q1 = f" using Suc.prems by simp
  from Suc.IH[OF q3 f3] obtain s' q' where
    ex: "executeTask cfg env ?t3 ?s3 = (Pending, s')"
    and inv: "invocations s' = invocations ?s3 + f"
    and em: "emitted s' = emitted ?s3 @ map (\<lambda>k. TaskStart (ids ?s3 + k) (category ?t3) 0) [0..<f]"
    and qs: "queues s' (queueName ?t3) = Some q'" "concurrency q' \<le> q_pending q'"
       "q_size q' = q_size ?q1 + 1"
    by blast
  have res: "executeTask cfg env t s = (Pending, s')"
    using run ex by (simp add: executeTask_starts[OF Suc.prems(1) free])
  have shift: "map (\<lambda>k. TaskStart (ids s + k) (category t) 0) [0..<Suc f]
      = TaskStart (ids s) (category t) 0 # map (\<lambda>k. TaskStart (ids s + 1 + k) (category t) 0) [0..<f]"
    by (simp add: upt_conv_Cons map_Suc_upt[symmetric] del: upt_Suc)
  show ?case using res inv em qs by (simp add: shift del: upt_Suc)
qed


lemma new_TaskScheduler_cfgSched: "new_TaskScheduler cfgSched = Some state0"
  by (simp add: new_TaskScheduler_def cfgSched_def state0_def)

text \<open>
  C1. The claim: a task whose handler always fails is retried while its attempt count
  is below the configured maximum, each resubmission carrying the count plus one, and
  is then reported as one failure event with its error surfaced. In the code
  \<^verbatim>\<open>executeTask\<close> resets the attempt count of every task it queues to 0, so \<^verbatim>\<open>runTask\<close>
  always finds the count below a positive maximum and retries; and each retry is queued
  from inside the job of the attempt before it, which keeps its slot. With a handler
  that fails on every call the handler runs once for each free slot of the tier's
  queue, every start event carries the attempt count 0, and then the next retry waits
  for a slot that only its own callers could release: the promise stays pending, no
  failure event is emitted and the error is not surfaced.
\<close>

theorem executeTask_retries_until_queue_full:
  assumes "\<forall>n. \<exists>e. handler env n = Inl e"
    and "max_attempts (retry cfg) = Some m" and "0 < m"
    and "queues s (queueName t) = Some q"
  shows "\<exists>s'. executeTask cfg env t s = (Pending, s')
       \<and> invocations s' = invocations s + (concurrency q - q_pending q)
       \<and> emitted s' = emitted s @
            map (\<lambda>k. TaskStart (ids s + k) (category t) 0) [0..<concurrency q - q_pending q]
       \<and> (\<exists>q'. queues s' (queueName t) = Some q' \<and> concurrency q' \<le> q_pending q'
             \<and> q_size q' = q_size q + 1)"
  using assms by (rule executeTask_deadlock[OF _ _ _ _ refl])

text \<open>
  Three attempts configured, the medium tier with three slots, a handler that always
  times out: three calls of the handler, three start events with the attempt count 0,
  and the promise pending with every slot held and one job waiting.
\<close>

theorem executeTask_retries_until_queue_full_witness:
  "new_TaskScheduler cfgSched = Some state0
   \<and> (\<exists>s'. executeTask cfgSched envAlwaysFails task0 state0 = (Pending, s')
         \<and> invocations s' = 3
         \<and> emitted s' = [TaskStart 0 ''financial'' 0, TaskStart 1 ''financial'' 0,
                          TaskStart 2 ''financial'' 0]
         \<and> (\<exists>q'. queues s' ''medium'' = Some q' \<and> concurrency q' \<le> q_pending q' \<and> q_size q' = 1))"
proof -
  have q: "queues state0 (queueName task0) = Some \<lparr>concurrency = 3, q_pending = 0, q_size = 0\<rparr>"
    by (simp add: state0_def task0_def queueName_def)
  have h: "\<forall>n. \<exists>e. handler envAlwaysFails n = Inl e" by (simp add: envAlwaysFails_def)
  have m: "max_attempts (retry cfgSched) = Some 3" by (simp add: cfgSched_def)
  have three: "[0..<3] = [0, 1, 2]" by (simp add: upt_rec)
  have s0: "invocations state0 = 0" "emitted state0 = []" "ids state0 = 0"
    by (simp_all add: state0_def)
  have t0: "category task0 = ''financial''" "queueName task0 = ''medium''"
    by (simp_all add: task0_def queueName_def)
  from executeTask_retries_until_queue_full[OF h m _ q]
  show ?thesis by (simp add: three s0 t0 new_TaskScheduler_cfgSched)
qed

text \<open>
  With a maximum of one attempt and a handler that fails twice before it succeeds, the
  task runs three times, each start event carries the attempt count 0, each retry
  waits the delay of attempt 0, no failure event is emitted, and the three slots are
  given back.
\<close>

theorem executeTask_retries_past_max:
  "executeTask cfgOneRetry envFailsTwice task0 state0 =
     (Resolved ''ok'',
       state0\<lparr>emitted := [TaskStart 0 ''financial'' 0, TaskStart 1 ''financial'' 0,
                           TaskStart 2 ''financial'' 0, TaskComplete 2 ''financial'' ''ok''],
               logged := [LogRetry 0 5000, LogRetry 1 5000],
               invocations := 3, draws := 2, ids := 3, slept := [5000, 5000]\<rparr>)"
  by (simp add: executeTask.simps runTask.simps retryTask.simps cfgOneRetry_def
      envFailsTwice_def task0_def state0_def queueName_def queue_next_def mayRetry_def emit_def
      Let_def calculateRetryDelay_def fun_upd_twist)
section \<open>Properties of the result cache\<close>

text \<open>The model of SHA-256 on the test vector of the standard.\<close>

lemma sha256hex_abc:
  "sha256hex ''abc'' = ''ba7816bf8f01cfea414140de5dae2223b00361a396177a9cb410ff61f20015ad''"
  by code_simp

lemma generateKey_paramsA:
  "generateKey ''financial'' paramsA = Inr ''financial:4efe3f0e0e7b91c55622364cfea4326237ca4f30aea19c32a7468d83234db83d''"
  by code_simp

lemma generateKey_paramsB:
  "generateKey ''financial'' paramsB = Inr ''financial:d1324bcd6eb3698e5b3f7b846b1ec5383d29f0de2e243a573e9fe0b10eb76a56''"
  by code_simp

lemma sameParameters_AB: "sameParameters paramsA paramsB"
  by (auto simp: sameParameters_def paramsA_def paramsB_def)

text \<open>
  C8 as stated says that semantically equal parameters derive the same key. The
  serialization follows the property order of the object: the same two properties in
  the two orders derive different keys in the same category.
\<close>

theorem generateKey_not_canonical:
  "sameParameters paramsA paramsB
   \<and> generateKey ''financial'' paramsA \<noteq> generateKey ''financial'' paramsB"
  by (simp add: sameParameters_AB generateKey_paramsA generateKey_paramsB)

lemma hex8_length: "length (hex8 x) = 8"
  by (simp add: hex8_def)

lemma hex_of_state_length: "length (hex_of_state st) = 64"
  by (simp add: hex_of_state_def hex8_length split: prod.splits)

lemma sha256hex_length: "length (sha256hex s) = 64"
  by (simp add: sha256hex_def sha256_bytes_def hex_of_state_length)

lemma generateKey_Inr:
  "generateKey cat d = Inr k \<Longrightarrow> \<exists>input. hashInput d = Inr (Some input) \<and> k = cat @ CHR '':'' # sha256hex input"
  by (auto simp: generateKey_def split: sum.splits option.splits)

text \<open>
  C8, as amended. Key material with the same hash input (the same string, or the same
  \<^verbatim>\<open>JSON.stringify\<close> text, property order included) derives the same key in a category;
  keys of distinct categories are distinct; a key is the category, a colon and the 64
  digits of the digest.
\<close>

theorem generateKey_deterministic_namespaced:
  "(hashInput d1 = hashInput d2 \<longrightarrow> generateKey cat d1 = generateKey cat d2)
   \<and> (generateKey c1 d1 = Inr k1 \<and> generateKey c2 d2 = Inr k2 \<and> c1 \<noteq> c2 \<longrightarrow> k1 \<noteq> k2)
   \<and> (generateKey cat d = Inr k \<longrightarrow> take (length cat + 1) k = cat @ '':'' \<and> length k = length cat + 65)"
proof (intro conjI impI)
  assume "hashInput d1 = hashInput d2"
  then show "generateKey cat d1 = generateKey cat d2" by (simp add: generateKey_def)
next
  assume a: "generateKey c1 d1 = Inr k1 \<and> generateKey c2 d2 = Inr k2 \<and> c1 \<noteq> c2"
  then obtain i1 i2 where k1: "k1 = c1 @ CHR '':'' # sha256hex i1" and k2: "k2 = c2 @ CHR '':'' # sha256hex i2"
    using generateKey_Inr by blast
  show "k1 \<noteq> k2"
  proof
    assume eq: "k1 = k2"
    then have "length c1 = length c2"
      using arg_cong[OF eq, of length] by (simp add: k1 k2 sha256hex_length)
    with eq have "c1 = c2" by (simp add: k1 k2)
    with a show False by simp
  qed
next
  assume "generateKey cat d = Inr k"
  then obtain i where k: "k = cat @ CHR '':'' # sha256hex i" using generateKey_Inr by blast
  show "take (length cat + 1) k = cat @ '':''" by (simp add: k)
  show "length k = length cat + 65" by (simp add: k sha256hex_length)
qed

text \<open>The same parameters in the categories financial and research.\<close>

theorem generateKey_deterministic_namespaced_witness:
  "\<exists>k1 k2. generateKey ''financial'' paramsA = Inr k1 \<and> generateKey ''research'' paramsA = Inr k2 \<and> k1 \<noteq> k2"
proof -
  obtain k1 where k1: "generateKey ''financial'' paramsA = Inr k1"
    by (simp add: generateKey_paramsA)
  obtain input where "hashInput paramsA = Inr (Some input)"
    using generateKey_Inr[OF k1] by blast
  then obtain k2 where k2: "generateKey ''research'' paramsA = Inr k2"
    by (simp add: generateKey_def)
  have "k1 \<noteq> k2"
    using generateKey_deterministic_namespaced[where ?c1.0 = "''financial''" and ?d1.0 = paramsA
        and ?k1.0 = k1 and ?c2.0 = "''research''" and ?d2.0 = paramsA and ?k2.0 = k2]
      k1 k2 by simp
  with k1 k2 show ?thesis by blast
qed

lemma map_of_map_set: "map_of (map_set k v xs) k' = (if k' = k then Some v else map_of xs k')"
  by (induction xs) auto

lemma generateKey_hashable: "hashable key \<Longrightarrow> \<exists>ck. generateKey cat key = Inr ck"
  by (auto simp: hashable_def generateKey_def split: sum.splits option.splits)

lemma cache_get_miss_expired:
  assumes "ready cm" "cc_enabled (cm_config cm)" "generateKey cat key = Inr ck"
    and "entryOf (client cm) ck = Some (v, expiry)" "expiry < now"
  shows "cache_get parse cm cat key now = Inr JNull"
  using assms
  by (cases "client cm")
     (auto simp: cache_get_def entryOf_def redis_get_def sqlite_get_def split: sum.splits option.splits)

lemma cache_set_overwrites:
  assumes "generateKey cat key = Inr ck"
    and "cache_set cm cat key val ttl now = (Inr True, cm')"
  shows "entryOf (client cm') ck =
           Some (case JSON_stringify val of Inr (Some s) \<Rightarrow> s | _ \<Rightarrow> [],
                 now + orElse ttl (getTTL cm cat) * 1000)
       \<and> (\<forall>k. k \<noteq> ck \<longrightarrow> entryOf (client cm') k = entryOf (client cm) k)"
  using assms
  by (cases "client cm")
     (auto simp: cache_set_def entryOf_def redis_set_ex_def sqlite_set_def map_of_map_set Let_def
           split: sum.splits option.splits if_splits)

lemma keyA_paramsA: "generateKey ''financial'' paramsA = Inr keyA"
  by (simp add: generateKey_paramsA keyA_def)

lemma stringify_example: "JSON_stringify (JArr [JNum 3, JNull]) = Inr (Some ''[3,null]'')"
  by code_simp

lemma cache_set_succeeds:
  assumes "ready cm" "cc_enabled (cm_config cm)" "generateKey cat key = Inr ck"
    and "JSON_stringify val = Inr (Some s)"
    and "(cc_type (cm_config cm) \<noteq> ''redis'' \<and> (\<exists>db. client cm = SQLiteClient db \<and> \<not> db_failing db))
       \<or> (cc_type (cm_config cm) = ''redis'' \<and> (\<exists>r. client cm = RedisClient r \<and> \<not> r_failing r)
            \<and> 0 < orElse ttl (getTTL cm cat))"
  shows "fst (cache_set cm cat key val ttl now) = Inr True"
  using assms
  by (auto simp: cache_set_def redis_set_ex_def sqlite_set_def Let_def)

text \<open>
  C6. With the cache ready and enabled and a key that can be derived: when the backend
  holds an entry for the key whose expiry time is in the past, \<^verbatim>\<open>get\<close> returns the miss,
  for the embedded store (the row is still in the table) as for the remote service; a
  \<^verbatim>\<open>set\<close> that returns \<^verbatim>\<open>true\<close> leaves under the key exactly the new text and the new
  expiry, whatever was stored before, and no other entry changed; and \<^verbatim>\<open>set\<close> returns
  \<^verbatim>\<open>true\<close> when the value serializes and the backend takes the write.
\<close>

theorem cache_expired_miss_and_overwrite:
  assumes ck: "generateKey cat key = Inr ck" and rdy: "ready cm" and en: "cc_enabled (cm_config cm)"
  shows "(entryOf (client cm) ck = Some (v, expiry) \<and> expiry < now \<longrightarrow>
            cache_get parse cm cat key now = Inr JNull)
    \<and> (cache_set cm cat key val ttl now = (Inr True, cm') \<longrightarrow>
            entryOf (client cm') ck =
              Some (case JSON_stringify val of Inr (Some s) \<Rightarrow> s | _ \<Rightarrow> [],
                    now + orElse ttl (getTTL cm cat) * 1000)
          \<and> (\<forall>k. k \<noteq> ck \<longrightarrow> entryOf (client cm') k = entryOf (client cm) k))
    \<and> (JSON_stringify val = Inr (Some s)
         \<and> ((cc_type (cm_config cm) \<noteq> ''redis'' \<and> (\<exists>db. client cm = SQLiteClient db \<and> \<not> db_failing db))
            \<or> (cc_type (cm_config cm) = ''redis'' \<and> (\<exists>r. client cm = RedisClient r \<and> \<not> r_failing r)
               \<and> 0 < orElse ttl (getTTL cm cat))) \<longrightarrow>
            fst (cache_set cm cat key val ttl now) = Inr True)"
  using cache_get_miss_expired[OF rdy en ck] cache_set_overwrites[OF ck]
    cache_set_succeeds[OF rdy en ck]
  by blast

text \<open>
  The row expired at 301000 and was not swept; at 400000 \<^verbatim>\<open>get\<close> misses, and a \<^verbatim>\<open>set\<close>
  replaces the row.
\<close>

theorem cache_expired_miss_and_overwrite_witness:
  "entryOf (client cmSqlite) keyA = Some (''[1,2]'', 301000)
   \<and> cache_get noParse cmSqlite ''financial'' paramsA 400000 = Inr JNull
   \<and> (\<exists>cm'. cache_set cmSqlite ''financial'' paramsA (JArr [JNum 3, JNull]) None 400000 = (Inr True, cm')
          \<and> entryOf (client cm') keyA = Some (''[3,null]'', 700000))"
proof -
  have rdy: "ready cmSqlite" and en: "cc_enabled (cm_config cmSqlite)"
    by (simp_all add: cmSqlite_def cfgSqlite_def)
  have e: "entryOf (client cmSqlite) keyA = Some (''[1,2]'', 301000)"
    by (simp add: entryOf_def cmSqlite_def)
  have ttl: "orElse None (getTTL cmSqlite ''financial'') = 300"
    by (simp add: orElse_def getTTL_def cmSqlite_def cfgSqlite_def)
  have be: "cc_type (cm_config cmSqlite) \<noteq> ''redis''
      \<and> (\<exists>db. client cmSqlite = SQLiteClient db \<and> \<not> db_failing db)"
    by (simp add: cmSqlite_def cfgSqlite_def)
  note inst = cache_expired_miss_and_overwrite[OF keyA_paramsA rdy en]
  have past: "(301000::int) < 400000" by simp
  from inst[THEN conjunct1] e past
  have miss: "cache_get noParse cmSqlite ''financial'' paramsA 400000 = Inr JNull"
    by blast
  from inst[THEN conjunct2, THEN conjunct2] be stringify_example
  have "fst (cache_set cmSqlite ''financial'' paramsA (JArr [JNum 3, JNull]) None 400000) = Inr True"
    by blast
  then obtain cm' where
    set: "cache_set cmSqlite ''financial'' paramsA (JArr [JNum 3, JNull]) None 400000 = (Inr True, cm')"
    by (cases "cache_set cmSqlite ''financial'' paramsA (JArr [JNum 3, JNull]) None 400000") auto
  from inst[THEN conjunct2, THEN conjunct1] set
  have "entryOf (client cm') keyA =
      Some (case JSON_stringify (JArr [JNum 3, JNull]) of Inr (Some s) \<Rightarrow> s | _ \<Rightarrow> [],
            400000 + orElse None (getTTL cmSqlite ''financial'') * 1000)"
    by blast
  then have "entryOf (client cm') keyA = Some (''[3,null]'', 700000)"
    by (simp add: stringify_example ttl)
  with e miss set show ?thesis by blast
qed

lemma cache_disabled:
  assumes "\<not> ready cm \<or> \<not> cc_enabled (cm_config cm)"
  shows "cache_get parse cm cat key now = Inr JNull"
    and "cache_set cm cat key val ttl now = (Inr False, cm)"
    and "cache_delete cm cat key = (Inr False, cm)"
    and "cache_clear cm cat now = (Inr False, cm)"
  using assms by (auto simp: cache_get_def cache_set_def cache_delete_def cache_clear_def)

lemma cache_get_no_throw: "hashable key \<Longrightarrow> cache_get parse cm cat key now \<noteq> Inl e"
  using generateKey_hashable[of key cat]
  by (auto simp: cache_get_def split: sum.splits)

lemma cache_set_no_throw: "hashable key \<Longrightarrow> fst (cache_set cm cat key val ttl now) \<noteq> Inl e"
  using generateKey_hashable[of key cat]
  by (auto simp: cache_set_def Let_def split: sum.splits)

lemma cache_delete_no_throw: "hashable key \<Longrightarrow> fst (cache_delete cm cat key) \<noteq> Inl e"
  using generateKey_hashable[of key cat]
  by (auto simp: cache_delete_def split: sum.splits)

lemma cache_clear_no_throw: "fst (cache_clear cm cat now) \<noteq> Inl e"
  by (auto simp: cache_clear_def split: sum.splits)

lemma cache_backend_fails:
  assumes "backendFails cm"
  shows "hashable key \<Longrightarrow> cache_get parse cm cat key now = Inr JNull"
    and "hashable key \<Longrightarrow> cache_set cm cat key val ttl now = (Inr False, cm)"
    and "hashable key \<Longrightarrow> cache_delete cm cat key = (Inr False, cm)"
    and "cache_clear cm cat now = (Inr False, cm)"
proof -
  show "cache_clear cm cat now = (Inr False, cm)"
    using assms
    by (cases "client cm")
       (auto simp: cache_clear_def backendFails_def redis_keys_def sqlite_clear_def)
  assume h: "hashable key"
  then obtain ck where ck: "generateKey cat key = Inr ck" using generateKey_hashable by blast
  show "cache_get parse cm cat key now = Inr JNull"
    using assms ck
    by (cases "client cm")
       (auto simp: cache_get_def backendFails_def redis_get_def sqlite_get_def)
  show "cache_set cm cat key val ttl now = (Inr False, cm)"
    using assms ck
    by (cases "client cm")
       (auto simp: cache_set_def backendFails_def redis_set_ex_def sqlite_set_def Let_def
             split: sum.splits)
  show "cache_delete cm cat key = (Inr False, cm)"
    using assms ck
    by (cases "client cm")
       (auto simp: cache_delete_def backendFails_def redis_del_def sqlite_delete_def)
qed

text \<open>
  C10, as amended. When the cache is disabled or not ready, \<^verbatim>\<open>get\<close> returns the miss and
  \<^verbatim>\<open>set\<close>, \<^verbatim>\<open>delete\<close> and \<^verbatim>\<open>clear\<close> return \<^verbatim>\<open>false\<close> and leave the manager as it is,
  for every key. For key material that can be hashed, \<^verbatim>\<open>get\<close>, \<^verbatim>\<open>set\<close> and \<^verbatim>\<open>delete\<close>
  never throw; \<^verbatim>\<open>clear\<close> never throws. When the backend raises an error, \<^verbatim>\<open>get\<close>
  returns the miss and the others return \<^verbatim>\<open>false\<close>.
\<close>

theorem cache_operations_total:
  "((\<not> ready cm \<or> \<not> cc_enabled (cm_config cm)) \<longrightarrow>
        cache_get parse cm cat key now = Inr JNull
      \<and> cache_set cm cat key val ttl now = (Inr False, cm)
      \<and> cache_delete cm cat key = (Inr False, cm)
      \<and> cache_clear cm cat now = (Inr False, cm))
   \<and> (hashable key \<longrightarrow>
        (\<forall>e. cache_get parse cm cat key now \<noteq> Inl e)
      \<and> (\<forall>e. fst (cache_set cm cat key val ttl now) \<noteq> Inl e)
      \<and> (\<forall>e. fst (cache_delete cm cat key) \<noteq> Inl e))
   \<and> (\<forall>e. fst (cache_clear cm cat now) \<noteq> Inl e)
   \<and> (backendFails cm \<and> hashable key \<longrightarrow>
        cache_get parse cm cat key now = Inr JNull
      \<and> cache_set cm cat key val ttl now = (Inr False, cm)
      \<and> cache_delete cm cat key = (Inr False, cm))
   \<and> (backendFails cm \<longrightarrow> cache_clear cm cat now = (Inr False, cm))"
  by (intro conjI impI allI)
     (simp_all add: cache_disabled cache_get_no_throw cache_set_no_throw cache_delete_no_throw
        cache_clear_no_throw cache_backend_fails)

text \<open>
  C10 as stated says that no operation throws for any key. \<^verbatim>\<open>generateKey\<close> is called
  before the \<^verbatim>\<open>try\<close> block: with the cache ready and the key \<^verbatim>\<open>undefined\<close>, \<^verbatim>\<open>get\<close>,
  \<^verbatim>\<open>set\<close> and \<^verbatim>\<open>delete\<close> throw a TypeError.
\<close>

theorem cache_get_throws_on_undefined_key:
  "cache_get noParse cmSqlite ''financial'' JUndefined 400000 = Inl TypeError
   \<and> fst (cache_set cmSqlite ''financial'' JUndefined JNull None 400000) = Inl TypeError
   \<and> fst (cache_delete cmSqlite ''financial'' JUndefined) = Inl TypeError"
  by (simp add: cache_get_def cache_set_def cache_delete_def cmSqlite_def cfgSqlite_def
      generateKey_def hashInput_def JSON_stringify_def)

text \<open>A disabled cache with an undefined key, and a remote service that is down.\<close>

theorem cache_operations_total_witness:
  "cache_get noParse cmDisabled ''financial'' JUndefined 0 = Inr JNull
   \<and> cache_set cmDisabled ''financial'' JUndefined JNull None 0 = (Inr False, cmDisabled)
   \<and> cache_get noParse cmDown ''financial'' paramsA 0 = Inr JNull
   \<and> cache_set cmDown ''financial'' paramsA JNull None 0 = (Inr False, cmDown)
   \<and> cache_delete cmDown ''financial'' paramsA = (Inr False, cmDown)
   \<and> cache_clear cmDown ''financial'' 0 = (Inr False, cmDown)"
proof -
  have dis: "\<not> ready cmDisabled \<or> \<not> cc_enabled (cm_config cmDisabled)"
    by (simp add: cmDisabled_def cfgSqlite_def)
  have down: "backendFails cmDown" by (simp add: backendFails_def cmDown_def)
  have h: "hashable paramsA" by (simp add: hashable_def hashInput_def paramsA_def JSON_stringify_def)
  from cache_operations_total[where cm = cmDisabled] dis
  have 1: "cache_get noParse cmDisabled ''financial'' JUndefined 0 = Inr JNull"
    and 2: "cache_set cmDisabled ''financial'' JUndefined JNull None 0 = (Inr False, cmDisabled)"
    by blast+
  from cache_operations_total[where cm = cmDown and key = paramsA] down h
  have 3: "cache_get noParse cmDown ''financial'' paramsA 0 = Inr JNull"
    and 4: "cache_set cmDown ''financial'' paramsA JNull None 0 = (Inr False, cmDown)"
    and 5: "cache_delete cmDown ''financial'' paramsA = (Inr False, cmDown)"
    and 6: "cache_clear cmDown ''financial'' 0 = (Inr False, cmDown)"
    by blast+
  from 1 2 3 4 5 6 show ?thesis by simp
qed

section \<open>Further properties\<close>

text \<open>
  When none of a consumer's assigned endpoints is healthy and the full pool has a
  healthy endpoint, \<^verbatim>\<open>getProxy\<close> warns once, assigns the full pool to the consumer and
  returns the least recently used healthy endpoint of the pool, given room for one
  nested call; the retry does not pass the previous proxy on, so the result may be the
  previous proxy.
\<close>

theorem getProxy_retry_full_pool:
  assumes en: "pc_enabled (pm_config pm)"
    and stale: "healthyCandidates pm consumer = []"
    and pool: "filter (isHealthy pm) (allProxies pm) \<noteq> []"
  shows "\<exists>pm'. getProxy (Suc stack) pm consumer prev now =
           (Inr (Some (hd (sort_key (lastUsedOr0 pm) (filter (isHealthy pm) (allProxies pm))))), pm')
         \<and> providerAssignments pm' consumer = Some (allProxies pm)
         \<and> warnings pm' = warnings pm @ [consumer]"
proof -
  let ?pm2 = "pm\<lparr>warnings := warnings pm @ [consumer],
                 providerAssignments := (providerAssignments pm)(consumer := None)\<rparr>"
  have en2: "pc_enabled (pm_config ?pm2)" using en by simp
  have hc: "healthyCandidates ?pm2 consumer = filter (isHealthy pm) (allProxies pm)"
    by (rule healthyCandidates_cleared)
  have ne: "healthyCandidates ?pm2 consumer \<noteq> []" using pool by (simp add: hc)
  have "getProxy (Suc stack) pm consumer prev now = getProxy stack ?pm2 consumer None now"
    using getProxy_unfold_retry[OF en stale, of "Suc stack" prev now] by simp
  also have "\<dots> = (let pm1 = (case providerAssignments ?pm2 consumer of
                   None \<Rightarrow> snd (assignProxiesToProvider ?pm2 consumer) | Some ps \<Rightarrow> ?pm2);
          p = selectProxy None (sort_key (lastUsedOr0 ?pm2) (healthyCandidates ?pm2 consumer))
      in (Inr (Some p), pm1\<lparr>lastUsed := (lastUsed pm1)(p \<mapsto> now)\<rparr>))"
    by (rule getProxy_unfold_healthy[OF en2 ne])
  finally show ?thesis
    by (simp add: hc Let_def selectProxy_def assignProxiesToProvider_def)
qed

text \<open>The stale assignment: the previous proxy is returned although two others are healthy.\<close>

theorem getProxy_retry_full_pool_witness:
  "\<exists>pm'. getProxy 1 pmStale ''ResearchHandler'' (Some ''socks5://c'') 40 = (Inr (Some ''socks5://c''), pm')"
proof -
  have en: "pc_enabled (pm_config pmStale)"
    by (simp add: pmStale_def pmUsed_def new_ProxyManager_def pm_initialize_def init_provider_def cfgThree_def)
  have all: "allProxies pmStale = [''http://a'', ''http://b'', ''socks5://c'']"
    by (simp add: pmStale_def pmUsed_def new_ProxyManager_def pm_initialize_def init_provider_def
        cfgThree_def allProxies_def)
  have h: "isHealthy pmStale p = (p = ''http://a'' \<or> p = ''http://b'' \<or> p = ''socks5://c'')" for p
    by (simp add: pmStale_def pmUsed_def new_ProxyManager_def pm_initialize_def init_provider_def
        cfgThree_def isHealthy_def fresh_status_def)
  have asg: "providerAssignments pmStale ''ResearchHandler'' = Some [''http://gone'']"
    by (simp add: pmStale_def)
  have stale: "healthyCandidates pmStale ''ResearchHandler'' = []"
    by (simp add: healthyCandidates_def asg h)
  have pool: "filter (isHealthy pmStale) (allProxies pmStale) = [''http://a'', ''http://b'', ''socks5://c'']"
    by (simp add: all h)
  have lu: "lastUsedOr0 pmStale ''http://a'' = 30" "lastUsedOr0 pmStale ''http://b'' = 20"
     "lastUsedOr0 pmStale ''socks5://c'' = 10"
    by (simp_all add: lastUsedOr0_def pmStale_def pmUsed_def)
  from getProxy_retry_full_pool[OF en stale, of 0 "Some ''socks5://c''" 40] pool
  show ?thesis by (auto simp: lu)
qed

text \<open>
  A rotation records its time for the credential it selects, and the credential
  counts as limited until the minimum rotation interval has passed: with the other two
  credentials unusable, a lookup 500 ms after the rotation fails, and a lookup 1000 ms
  after it returns the credential again.
\<close>

theorem rotation_interval_blocks_next_lookup:
  "fst (getKey akmTwoDown ''serpapi'' 2000) = Inr ''key-2''
   \<and> fst (getKey (snd (getKey akmTwoDown ''serpapi'' 2000)) ''serpapi'' 2500) = Inl AllKeysUnavailable
   \<and> fst (getKey (snd (getKey akmTwoDown ''serpapi'' 2000)) ''serpapi'' 3000) = Inr ''key-2''"
  by code_simp

text \<open>
  For a provider without state the marking operations change nothing,
  \<^verbatim>\<open>isKeyLimited\<close> answers \<^verbatim>\<open>true\<close>, and the lookups fail with their configuration errors.
\<close>

theorem unknown_provider_noop:
  assumes "keyStates akm provider = None"
  shows "markKeyError akm provider key err now = akm
    \<and> markKeyLimited akm provider key reset now = akm
    \<and> resetKeyState akm provider key = akm
    \<and> getKey akm provider now = (Inl NoApiKeysConfigured, akm)
    \<and> rotateKey akm provider now = (Inl UnknownProvider, akm)
    \<and> isKeyLimited akm provider key now = Inr True"
  using assms
  by (simp add: markKeyError_def markKeyLimited_def resetKeyState_def getKey_def rotateKey_def
      isKeyLimited_def)

text \<open>A provider that the configuration does not name.\<close>

theorem unknown_provider_noop_witness:
  "markKeyError akmTwoDown ''openai'' ''key-9'' ''HTTP 500'' 2000 = akmTwoDown
   \<and> fst (getKey akmTwoDown ''openai'' 2000) = Inl NoApiKeysConfigured"
proof -
  have "keyStates akmTwoDown ''openai'' = None"
    by (simp add: akmTwoDown_def markKeyError_def markKeyLimited_def new_ApiKeyManager_def
        cfgKeys_def initial_key_state_def Let_def)
  from unknown_provider_noop[OF this] show ?thesis by simp
qed

text \<open>
  For a draw in \<open>[0, 1)\<close> and a non-negative base delay the retry delay is the
  floor of the capped delay plus 0.2 times the capped delay times (draw - 0.5), so it
  stays within a tenth of the capped delay on either side and below 330000 ms.
\<close>

theorem calculateRetryDelay_jitter_tenth:
  assumes "0 \<le> r" and "r < 1" and "0 \<le> baseDelayOf rc"
  shows "calculateRetryDelay rc a r = \<lfloor>cappedDelay rc a + cappedDelay rc a * 0.2 * (r - 0.5)\<rfloor>
    \<and> 0.9 * cappedDelay rc a - 1 < real_of_int (calculateRetryDelay rc a r)
    \<and> real_of_int (calculateRetryDelay rc a r) \<le> 1.1 * cappedDelay rc a
    \<and> calculateRetryDelay rc a r \<le> 330000"
proof -
  note tight = calculateRetryDelay_tight[OF assms, of a]
  have "cappedDelay rc a \<le> 300000" by (simp add: cappedDelay_def)
  with tight(2) have "real_of_int (calculateRetryDelay rc a r) \<le> 330000" by linarith
  then have "calculateRetryDelay rc a r \<le> 330000" by linarith
  with tight calculateRetryDelay_alt[of rc a r] show ?thesis by simp
qed

text \<open>Attempt 6 at the draw 3/4: the capped delay is 300000 and the delay 315000.\<close>

theorem calculateRetryDelay_jitter_tenth_witness:
  "calculateRetryDelay retryDefault 6 (3/4) = 315000
   \<and> cappedDelay retryDefault 6 = 300000
   \<and> calculateRetryDelay retryDefault 6 (3/4) \<le> 330000"
proof -
  have b: "baseDelayOf retryDefault = 5000" by (simp add: baseDelayOf_def retryDefault_def)
  have r: "(0::real) \<le> 3/4" "(3/4::real) < 1" "0 \<le> baseDelayOf retryDefault" using b by simp_all
  have c: "cappedDelay retryDefault 6 = 300000" by (simp add: cappedDelay_def b)
  from calculateRetryDelay_jitter_tenth[OF r, of 6] delay_eval c show ?thesis by simp
qed


end
